theory Spec2Isabelle
  imports Main "HOL-Library.Sublist"
begin

section \<open>The icon document\<close>

text \<open>
  \<^verbatim>\<open>scripts/generate_icon.py\<close> builds one SVG document from a triple-quoted literal
  and writes it to disk. Python strings are modelled as \<^typ>\<open>string\<close>; the document
  is plain ASCII, so characters and bytes coincide. Each source line of the literal is
  rendered as \<open>text_line ''...''\<close>, the line followed by its line feed; the last line
  of the literal has none.
\<close>

definition text_line :: "string \<Rightarrow> string" where
  "text_line s = s @ [CHR 0x0A]"

definition generate_icon_svg :: "unit \<Rightarrow> string" where
  \<open>generate_icon_svg u =
    (let svg =
       text_line ''<?xml version="1.0" encoding="UTF-8"?>'' @
       text_line ''<svg width="1024" height="1024" viewBox="0 0 1024 1024" xmlns="http://www.w3.org/2000/svg">'' @
       text_line ''  <!-- Background gradient -->'' @
       text_line ''  <defs>'' @
       text_line ''    <linearGradient id="bgGrad" x1="0%" y1="0%" x2="100%" y2="100%">'' @
       text_line ''      <stop offset="0%" style="stop-color:#667eea;stop-opacity:1" />'' @
       text_line ''      <stop offset="100%" style="stop-color:#764ba2;stop-opacity:1" />'' @
       text_line ''    </linearGradient>'' @
       text_line ''    <linearGradient id="iconGrad" x1="0%" y1="0%" x2="100%" y2="100%">'' @
       text_line ''      <stop offset="0%" style="stop-color:#fbbf24;stop-opacity:1" />'' @
       text_line ''      <stop offset="100%" style="stop-color:#f59e0b;stop-opacity:1" />'' @
       text_line ''    </linearGradient>'' @
       text_line ''  </defs>'' @
       text_line '''' @
       text_line ''  <!-- Background circle -->'' @
       text_line ''  <circle cx="512" cy="512" r="480" fill="url(#bgGrad)"/>'' @
       text_line '''' @
       text_line ''  <!-- Code editor icon -->'' @
       text_line ''  <g transform="translate(512, 512)">'' @
       text_line ''    <!-- Bracket symbols representing code -->'' @
       text_line ''    <path d="M -200,-200 L -150,-200 L -150,-150 M -200,200 L -150,200 L -150,150"'' @
       text_line ''          stroke="url(#iconGrad)" stroke-width="40" fill="none" stroke-linecap="round"/>'' @
       text_line ''    <path d="M 200,-200 L 150,-200 L 150,-150 M 200,200 L 150,200 L 150,150"'' @
       text_line ''          stroke="url(#iconGrad)" stroke-width="40" fill="none" stroke-linecap="round"/>'' @
       text_line '''' @
       text_line ''    <!-- AI brain symbol in center -->'' @
       text_line ''    <circle cx="0" cy="-80" r="30" fill="url(#iconGrad)"/>'' @
       text_line ''    <circle cx="-60" cy="0" r="30" fill="url(#iconGrad)"/>'' @
       text_line ''    <circle cx="60" cy="0" r="30" fill="url(#iconGrad)"/>'' @
       text_line ''    <circle cx="0" cy="80" r="30" fill="url(#iconGrad)"/>'' @
       text_line '''' @
       text_line ''    <!-- Connection lines -->'' @
       text_line ''    <line x1="0" y1="-50" x2="-42" y2="-21" stroke="url(#iconGrad)" stroke-width="8"/>'' @
       text_line ''    <line x1="0" y1="-50" x2="42" y2="-21" stroke="url(#iconGrad)" stroke-width="8"/>'' @
       text_line ''    <line x1="-42" y1="21" x2="0" y2="50" stroke="url(#iconGrad)" stroke-width="8"/>'' @
       text_line ''    <line x1="42" y1="21" x2="0" y2="50" stroke="url(#iconGrad)" stroke-width="8"/>'' @
       text_line ''    <line x1="-42" y1="-21" x2="-42" y2="21" stroke="url(#iconGrad)" stroke-width="8"/>'' @
       text_line ''    <line x1="42" y1="-21" x2="42" y2="21" stroke="url(#iconGrad)" stroke-width="8"/>'' @
       text_line ''  </g>'' @
       ''</svg>''
     in svg)\<close>

subsection \<open>Reading the document\<close>

text \<open>
  The claims about the document's content are stated with a few executable readers:
  the first line, the names of the start tags, the lines, and the values that follow a
  key on a line (an \<open>id="\<close> attribute, a \<open>url(#\<close> reference).
\<close>

definition first_line :: "string \<Rightarrow> string" where
  "first_line s = takeWhile (\<lambda>c. c \<noteq> CHR 0x0A) s"

definition name_end :: "char \<Rightarrow> bool" where
  \<open>name_end c = (c \<in> set [CHR '' '', CHR ''/'', CHR ''>'', CHR 0x0A])\<close>

fun start_tags :: "string \<Rightarrow> string list" where
  "start_tags [] = []"
| \<open>start_tags (c # cs) =
     (if c = CHR ''<'' \<and> cs \<noteq> [] \<and> hd cs \<notin> set ''/!?''
      then takeWhile (\<lambda>d. \<not> name_end d) cs # start_tags cs
      else start_tags cs)\<close>

definition count_elements :: "string \<Rightarrow> string \<Rightarrow> nat" where
  "count_elements name s = length (filter (\<lambda>t. t = name) (start_tags s))"

fun split_on :: "char \<Rightarrow> string \<Rightarrow> string list" where
  "split_on d [] = [[]]"
| "split_on d (c # cs) =
     (if c = d then [] # split_on d cs
      else (case split_on d cs of [] \<Rightarrow> [[c]] | x # xs \<Rightarrow> (c # x) # xs))"

definition doc_lines :: "string \<Rightarrow> string list" where
  "doc_lines s = split_on (CHR 0x0A) s"

fun values_after :: "string \<Rightarrow> char \<Rightarrow> string \<Rightarrow> string list" where
  "values_after key stop [] = []"
| "values_after key stop (c # cs) =
     (if prefix key (c # cs)
      then takeWhile (\<lambda>d. d \<noteq> stop) (drop (length key) (c # cs)) # values_after key stop cs
      else values_after key stop cs)"

definition defs_section :: "string \<Rightarrow> string list" where
  \<open>defs_section s =
     takeWhile (\<lambda>l. \<not> sublist ''</defs>'' l)
       (drop 1 (dropWhile (\<lambda>l. \<not> sublist ''<defs>'' l) (doc_lines s)))\<close>

definition gradient_ids :: "string \<Rightarrow> string list" where
  \<open>gradient_ids s =
     concat (map (values_after ''<linearGradient id="'' (CHR 0x22)) (defs_section s))\<close>

definition gradient_refs :: "string \<Rightarrow> string list" where
  \<open>gradient_refs s =
     concat (map (values_after ''url(#'' (CHR '')'')) (doc_lines s))\<close>

section \<open>Paths\<close>

text \<open>
  The script builds its paths with \<open>os.path.dirname\<close> and \<open>os.path.join\<close> and creates
  the directory with \<open>os.makedirs\<close>. These are modelled after the POSIX versions of the
  Python standard library (\<open>posixpath.py\<close>, \<open>os.py\<close>), branch for branch: the
  separator is \<open>/\<close>, \<open>split\<close> cuts at the last separator and strips the trailing
  separators of the head unless the head is all separators, \<open>join\<close> restarts at a
  component that begins with a separator.
\<close>

definition rstrip_sep :: "string \<Rightarrow> string" where
  "rstrip_sep s = rev (dropWhile (\<lambda>c. c = CHR ''/'') (rev s))"

definition split_path :: "string \<Rightarrow> string \<times> string" where
  "split_path p =
     (let head = rev (dropWhile (\<lambda>c. c \<noteq> CHR ''/'') (rev p));
          tail = rev (takeWhile (\<lambda>c. c \<noteq> CHR ''/'') (rev p));
          head = (if head \<noteq> [] \<and> head \<noteq> replicate (length head) (CHR ''/'')
                  then rstrip_sep head else head)
      in (head, tail))"

definition dirname :: "string \<Rightarrow> string" where
  "dirname p =
     (let head = rev (dropWhile (\<lambda>c. c \<noteq> CHR ''/'') (rev p));
          head = (if head \<noteq> [] \<and> head \<noteq> replicate (length head) (CHR ''/'')
                  then rstrip_sep head else head)
      in head)"

definition join_step :: "string \<Rightarrow> string \<Rightarrow> string" where
  "join_step path b =
     (if b \<noteq> [] \<and> hd b = CHR ''/'' then b
      else if path = [] \<or> last path = CHR ''/'' then path @ b
      else path @ ''/'' @ b)"

definition join :: "string \<Rightarrow> string list \<Rightarrow> string" where
  "join a p = foldl join_step a p"

section \<open>The file system\<close>

text \<open>
  The state of the world is a tree of nodes addressed by resolved paths (lists of
  names from the root), a current directory, a permission for each path (to create
  entries in a directory, to write a file), the free space of the device in bytes, the
  table of open files, the trace of the system calls made so far, and the console.
  Resolution walks the components of a path string: an empty component and \<open>.\<close> stay,
  \<open>..\<close> goes to the parent, and every step needs the current node to be a directory.
  There are no symbolic links. A node that the program creates is writable by the
  program (the default umask). Directories and empty files take no space.

  Every operation returns an error or a value together with the new state, so that each
  exception of the source is a branch of the model.
\<close>

datatype node = Dir | File string

type_synonym path = "string list"

datatype os_error =
  FileNotFoundError | FileExistsError | NotADirectoryError | IsADirectoryError
  | PermissionError | NoSpaceError | BadFileDescriptor
  | UnicodeEncodeError | BrokenPipeError

datatype event =
  Mkdir string "os_error + unit"
  | Open string "os_error + nat"
  | Write nat string "os_error + nat"
  | Close nat

record world =
  cwd :: path
  nodes :: "path \<rightharpoonup> node"
  writable :: "path \<Rightarrow> bool"
  free_space :: nat
  open_files :: "(nat \<times> path) list"
  trace :: "event list"
  stdout :: "string list"
  stdout_error :: "string \<Rightarrow> os_error option"
  flush_fails :: bool

type_synonym 'a io = "world \<Rightarrow> (os_error + 'a) \<times> world"

definition node_at :: "(path \<rightharpoonup> node) \<Rightarrow> path \<Rightarrow> node option" where
  "node_at ns p = (if p = [] then Some Dir else ns p)"

definition components :: "string \<Rightarrow> string list" where
  "components s = split_on (CHR ''/'') s"

fun walk :: "(path \<rightharpoonup> node) \<Rightarrow> path \<Rightarrow> string list \<Rightarrow> os_error + path" where
  "walk ns cur [] = Inr cur"
| "walk ns cur (c # cs) =
     (if node_at ns cur \<noteq> Some Dir
      then Inl (if node_at ns cur = None then FileNotFoundError else NotADirectoryError)
      else if c = [] \<or> c = ''.'' then walk ns cur cs
      else if c = ''..'' then walk ns (butlast cur) cs
      else walk ns (cur @ [c]) cs)"

definition resolve :: "world \<Rightarrow> string \<Rightarrow> os_error + path" where
  "resolve w s =
     (if s = [] then Inl FileNotFoundError
      else walk (nodes w) (if hd s = CHR ''/'' then [] else cwd w) (components s))"

definition path_exists :: "string \<Rightarrow> world \<Rightarrow> bool" where
  "path_exists s w =
     (case resolve w s of Inl e \<Rightarrow> False | Inr p \<Rightarrow> node_at (nodes w) p \<noteq> None)"

definition path_isdir :: "string \<Rightarrow> world \<Rightarrow> bool" where
  "path_isdir s w =
     (case resolve w s of Inl e \<Rightarrow> False | Inr p \<Rightarrow> node_at (nodes w) p = Some Dir)"

definition log :: "event \<Rightarrow> world \<Rightarrow> world" where
  "log ev w = w\<lparr>trace := trace w @ [ev]\<rparr>"

text \<open>
  \<open>mkdir\<close> fails with \<open>FileExistsError\<close> when the path names an existing node, with
  \<open>PermissionError\<close> when the parent directory is not writable, and with the error of
  the resolution when the parent cannot be reached. Trailing separators are ignored.
\<close>

definition mkdir_result :: "string \<Rightarrow> world \<Rightarrow> (os_error + unit) \<times> world" where
  "mkdir_result s w =
     (case resolve w (if rstrip_sep s = [] then s else rstrip_sep s) of
        Inl e \<Rightarrow> (Inl e, w)
      | Inr p \<Rightarrow>
          if node_at (nodes w) p \<noteq> None then (Inl FileExistsError, w)
          else if node_at (nodes w) (butlast p) \<noteq> Some Dir then (Inl FileNotFoundError, w)
          else if \<not> writable w (butlast p) then (Inl PermissionError, w)
          else (Inr (), w\<lparr>nodes := (nodes w)(p \<mapsto> Dir), writable := (writable w)(p := True)\<rparr>))"

definition mkdir :: "string \<Rightarrow> unit io" where
  "mkdir s w = (case mkdir_result s w of (r, w1) \<Rightarrow> (r, log (Mkdir s r) w1))"

fun fresh_fd :: "(nat \<times> path) list \<Rightarrow> nat" where
  "fresh_fd [] = 3"
| "fresh_fd ((fd, p) # fs) = max (Suc fd) (fresh_fd fs)"

text \<open>
  \<open>open(path, 'w')\<close> creates the file or truncates it to length zero, and gives back a
  fresh handle. It fails on a directory, on a file that is not writable, and in a
  directory that does not exist or is not writable; a failed open changes nothing.
\<close>

definition open_result :: "string \<Rightarrow> world \<Rightarrow> (os_error + nat) \<times> world" where
  "open_result s w =
     (case resolve w s of
        Inl e \<Rightarrow> (Inl e, w)
      | Inr p \<Rightarrow>
          (case node_at (nodes w) p of
             Some Dir \<Rightarrow> (Inl IsADirectoryError, w)
           | Some (File c) \<Rightarrow>
               if \<not> writable w p then (Inl PermissionError, w)
               else (Inr (fresh_fd (open_files w)),
                     w\<lparr>nodes := (nodes w)(p \<mapsto> File []),
                       free_space := free_space w + length c,
                       open_files := (fresh_fd (open_files w), p) # open_files w\<rparr>)
           | None \<Rightarrow>
               if node_at (nodes w) (butlast p) \<noteq> Some Dir then (Inl FileNotFoundError, w)
               else if \<not> writable w (butlast p) then (Inl PermissionError, w)
               else (Inr (fresh_fd (open_files w)),
                     w\<lparr>nodes := (nodes w)(p \<mapsto> File []),
                       writable := (writable w)(p := True),
                       open_files := (fresh_fd (open_files w), p) # open_files w\<rparr>)))"

definition open_w :: "string \<Rightarrow> nat io" where
  "open_w s w = (case open_result s w of (r, w1) \<Rightarrow> (r, log (Open s r) w1))"

text \<open>
  A write appends as many bytes as the device has room for and raises
  \<open>NoSpaceError\<close> when that is not all of them. Buffering of the file object is not
  modelled: the error of a write that the interpreter would report when the buffer is
  flushed at \<open>close\<close> is reported by the write itself; in both cases it leaves the
  \<open>with\<close> block after the handle is closed.
\<close>

definition write_result :: "nat \<Rightarrow> string \<Rightarrow> world \<Rightarrow> (os_error + nat) \<times> world" where
  "write_result fd data w =
     (case map_of (open_files w) fd of
        None \<Rightarrow> (Inl BadFileDescriptor, w)
      | Some p \<Rightarrow>
          (case nodes w p of
             Some (File c) \<Rightarrow>
               (let n = min (length data) (free_space w);
                    w1 = w\<lparr>nodes := (nodes w)(p \<mapsto> File (c @ take n data)),
                           free_space := free_space w - n\<rparr>
                in if n < length data then (Inl NoSpaceError, w1) else (Inr (length data), w1))
           | _ \<Rightarrow> (Inl BadFileDescriptor, w)))"

definition file_write :: "nat \<Rightarrow> string \<Rightarrow> nat io" where
  "file_write fd data w = (case write_result fd data w of (r, w1) \<Rightarrow> (r, log (Write fd data r) w1))"

definition file_close :: "nat \<Rightarrow> world \<Rightarrow> world" where
  "file_close fd w = log (Close fd) (w\<lparr>open_files := filter (\<lambda>(f, p). f \<noteq> fd) (open_files w)\<rparr>)"

text \<open>
  \<open>with open(...) as f: body\<close> closes the handle when the body returns and when it
  raises, and passes the result of the body on.
\<close>

definition with_open_w :: "string \<Rightarrow> (nat \<Rightarrow> 'a io) \<Rightarrow> 'a io" where
  "with_open_w s body w =
     (case open_w s w of
        (Inl e, w1) \<Rightarrow> (Inl e, w1)
      | (Inr f, w1) \<Rightarrow> (case body f w1 of (r, w2) \<Rightarrow> (r, file_close f w2)))"

text \<open>
  The standard output is a text stream with an encoding and a device behind it.
  \<open>print\<close> raises when the stream refuses the text: \<open>stdout_error w s\<close> is the
  error raised for the text \<open>s\<close> (\<open>UnicodeEncodeError\<close> where the encoding has no
  code for a character of \<open>s\<close>, an operating-system error where an unbuffered device
  refuses the bytes), and \<open>None\<close> where the text is taken. Text that is taken is
  appended to \<open>stdout\<close>, with the line feed that \<open>print\<close> adds.
\<close>

definition print :: "string \<Rightarrow> unit io" where
  "print s w =
     (case stdout_error w s of
        Some e \<Rightarrow> (Inl e, w)
      | None \<Rightarrow> (Inr (), w\<lparr>stdout := stdout w @ [s @ [CHR 0x0A]]\<rparr>))"

definition bind :: "'a io \<Rightarrow> ('a \<Rightarrow> 'b io) \<Rightarrow> 'b io" where
  "bind m k w = (case m w of (Inl e, w1) \<Rightarrow> (Inl e, w1) | (Inr x, w1) \<Rightarrow> k x w1)"

section \<open>Creating directories\<close>

text \<open>
  \<open>os.makedirs(name, exist_ok=True)\<close>: split the name, create the head first when it
  does not exist (an error \<open>FileExistsError\<close> of that recursive call is dropped), stop
  when the tail is \<open>.\<close>, then \<open>mkdir\<close> the name and drop its error when the name is
  a directory by then.
\<close>

definition makedirs_split :: "string \<Rightarrow> string \<times> string" where
  "makedirs_split name =
     (case split_path name of
        (head, tail) \<Rightarrow> if tail = [] then split_path head else (head, tail))"

definition makedirs_leaf :: "string \<Rightarrow> bool \<Rightarrow> unit io" where
  "makedirs_leaf name exist_ok w =
     (case mkdir name w of
        (Inl e, w1) \<Rightarrow>
          if \<not> exist_ok \<or> \<not> path_isdir name w1 then (Inl e, w1) else (Inr (), w1)
      | (Inr u, w1) \<Rightarrow> (Inr (), w1))"

function makedirs :: "string \<Rightarrow> bool \<Rightarrow> unit io" where
  "makedirs name exist_ok w =
     (case makedirs_split name of
        (head, tail) \<Rightarrow>
          if head \<noteq> [] \<and> tail \<noteq> [] \<and> \<not> path_exists head w
          then (case makedirs head exist_ok w of
                  (Inl e, w1) \<Rightarrow>
                    if e = FileExistsError
                    then (if tail = ''.'' then (Inr (), w1) else makedirs_leaf name exist_ok w1)
                    else (Inl e, w1)
                | (Inr u, w1) \<Rightarrow>
                    if tail = ''.'' then (Inr (), w1) else makedirs_leaf name exist_ok w1)
          else makedirs_leaf name exist_ok w)"
  by pat_completeness auto
termination
proof (relation "measure (\<lambda>(name, exist_ok, w). length name)", goal_cases)
  case 1
  show ?case by simp
next
  case (2 name exist_ok w x y)
  have strip: "length (rstrip_sep s) \<le> length s" for s
    by (simp add: rstrip_sep_def length_dropWhile_le[of _ "rev s", simplified])
  have len: "length (fst (split_path p)) + length (snd (split_path p)) \<le> length p" for p
  proof -
    let ?h0 = "rev (dropWhile (\<lambda>c. c \<noteq> CHR ''/'') (rev p))"
    let ?t0 = "rev (takeWhile (\<lambda>c. c \<noteq> CHR ''/'') (rev p))"
    have "length ?h0 + length ?t0 = length p"
      using takeWhile_dropWhile_id[of "\<lambda>c. c \<noteq> CHR ''/''" "rev p"]
      by (metis add.commute length_append length_rev)
    moreover have "snd (split_path p) = ?t0" "length (fst (split_path p)) \<le> length ?h0"
      using strip[of ?h0] by (auto simp: split_path_def Let_def)
    ultimately show ?thesis by simp
  qed
  have "length x + length y \<le> length name"
  proof (cases "snd (split_path name) = []")
    case True
    then have "(x, y) = split_path (fst (split_path name))"
      using 2(1) by (simp add: makedirs_split_def split: prod.splits)
    then have "length x + length y \<le> length (fst (split_path name))"
      using len[of "fst (split_path name)"] by (metis fst_conv snd_conv)
    with len[of name] show ?thesis by simp
  next
    case False
    then have "(x, y) = split_path name"
      using 2(1) by (simp add: makedirs_split_def split: prod.splits)
    then show ?thesis using len[of name] by (metis fst_conv snd_conv)
  qed
  with 2(2) show ?case by (cases y) auto
qed

declare makedirs.simps [simp del]

section \<open>The program\<close>

text \<open>
  \<open>main\<close> takes the value of \<open>__file__\<close>, the path of the script, as its argument
  \<open>file\<close>. The check mark that the first printed line starts with is the character
  U+2713, three bytes in UTF-8.
\<close>

definition output_dir :: "string \<Rightarrow> string" where
  "output_dir file = join (dirname file) [''..'', ''src-tauri'', ''icons'']"

definition svg_path :: "string \<Rightarrow> string" where
  "svg_path file = join (output_dir file) [''icon.svg'']"

definition check_mark :: string where
  "check_mark = [CHR 0xE2, CHR 0x9C, CHR 0x93]"

definition main :: "string \<Rightarrow> unit io" where
  \<open>main file =
     (let output_dir = join (dirname file) [''..'', ''src-tauri'', ''icons''] in
      bind (makedirs output_dir True) (\<lambda>_.
        let svg_content = generate_icon_svg ();
            svg_path = join output_dir [''icon.svg''] in
        bind (with_open_w svg_path (\<lambda>f. file_write f svg_content)) (\<lambda>_.
        bind (print (check_mark @ '' Generated SVG icon at: '' @ svg_path)) (\<lambda>_.
        bind (print (CHR 0x0A # ''Next steps:'')) (\<lambda>_.
        bind (print ''1. Convert SVG to PNG using online tool or ImageMagick:'') (\<lambda>_.
        bind (print ''   - Online: https://cloudconvert.com/svg-to-png'') (\<lambda>_.
        bind (print ''   - Or install ImageMagick: brew install imagemagick'') (\<lambda>_.
        bind (print ''   - Then run: convert -background none -size 1024x1024 icon.svg icon.png'') (\<lambda>_.
        bind (print (CHR 0x0A # ''2. Generate Tauri icons:'')) (\<lambda>_.
        print ''   npm run tauri icon src-tauri/icons/icon.png''))))))))))\<close>

text \<open>
  The module calls \<open>main ()\<close> at top level. The interpreter ends with status 1 when
  an exception leaves \<open>main\<close> and with status 0 when \<open>main\<close> returns; when text
  printed during the run is still buffered and the device refuses it at exit
  (\<open>flush_fails\<close>), the status is 120 instead.
\<close>

definition run_script :: "string \<Rightarrow> world \<Rightarrow> nat \<times> world" where
  "run_script file w =
     (case main file w of
        (r, w1) \<Rightarrow>
          (if flush_fails w1 \<and> stdout w1 \<noteq> stdout w then 120
           else (case r of Inl e \<Rightarrow> 1 | Inr u \<Rightarrow> 0), w1))"

section \<open>Notions used in the statements\<close>

text \<open>
  The definitions below name what the claims speak about: the events of a trace that
  are \<open>mkdir\<close> calls, the relation between two states of which the second only has more
  directories, the lines the program prints, a console that takes them, a run without
  file-system error, a read-only tree, and a small example tree on which the theorems
  are evaluated.
\<close>

definition is_mkdir :: "event \<Rightarrow> bool" where
  "is_mkdir ev = (case ev of Mkdir s r \<Rightarrow> True | _ \<Rightarrow> False)"

definition dirs_added :: "world \<Rightarrow> world \<Rightarrow> bool" where
  "dirs_added w w1 \<longleftrightarrow>
     cwd w1 = cwd w \<and> free_space w1 = free_space w \<and> open_files w1 = open_files w \<and>
     stdout w1 = stdout w \<and> stdout_error w1 = stdout_error w \<and> flush_fails w1 = flush_fails w \<and>
     (\<forall>q. nodes w1 q = nodes w q \<or> (nodes w q = None \<and> nodes w1 q = Some Dir)) \<and>
     (\<forall>q. writable w q \<longrightarrow> writable w1 q) \<and>
     (\<exists>evs. trace w1 = trace w @ evs \<and> list_all is_mkdir evs)"

definition old_length :: "world \<Rightarrow> path \<Rightarrow> nat" where
  "old_length w p = (case nodes w p of Some (File c) \<Rightarrow> length c | _ \<Rightarrow> 0)"

definition written :: "world \<Rightarrow> path \<Rightarrow> string \<Rightarrow> nat" where
  "written w p data = min (length data) (free_space w + old_length w p)"

definition printed_lines :: "string \<Rightarrow> string list" where
  \<open>printed_lines file =
     [check_mark @ '' Generated SVG icon at: '' @ svg_path file,
      CHR 0x0A # ''Next steps:'',
      ''1. Convert SVG to PNG using online tool or ImageMagick:'',
      ''   - Online: https://cloudconvert.com/svg-to-png'',
      ''   - Or install ImageMagick: brew install imagemagick'',
      ''   - Then run: convert -background none -size 1024x1024 icon.svg icon.png'',
      CHR 0x0A # ''2. Generate Tauri icons:'',
      ''   npm run tauri icon src-tauri/icons/icon.png'']\<close>

definition guidance :: "string \<Rightarrow> string list" where
  "guidance file = map (\<lambda>s. s @ [CHR 0x0A]) (printed_lines file)"

fun print_lines :: "string list \<Rightarrow> unit io" where
  "print_lines [] w = (Inr (), w)"
| "print_lines (s # ss) w =
     (case print s w of (Inl e, w1) \<Rightarrow> (Inl e, w1) | (Inr u, w1) \<Rightarrow> print_lines ss w1)"

definition console_takes :: "string list \<Rightarrow> world \<Rightarrow> bool" where
  "console_takes ss w = list_all (\<lambda>s. stdout_error w s = None) ss"

definition write_icon :: "string \<Rightarrow> nat io" where
  "write_icon file = with_open_w (svg_path file) (\<lambda>f. file_write f (generate_icon_svg ()))"

definition dir_prefix :: "string \<Rightarrow> string" where
  "dir_prefix d = (if d = [] \<or> last d = CHR ''/'' then d else d @ ''/'')"

definition writes :: "event list \<Rightarrow> event list" where
  "writes evs = filter (\<lambda>ev. case ev of Write f d r \<Rightarrow> True | _ \<Rightarrow> False) evs"

definition read_only :: "world \<Rightarrow> bool" where
  "read_only w \<longleftrightarrow> (\<forall>p. \<not> writable w p)"

definition same_tree :: "world \<Rightarrow> world \<Rightarrow> bool" where
  "same_tree w w1 \<longleftrightarrow> nodes w1 = nodes w \<and> writable w1 = writable w \<and> cwd w1 = cwd w"

definition src_tauri_dir :: "string \<Rightarrow> string" where
  "src_tauri_dir file = dir_prefix (dirname file) @ ''../src-tauri''"

definition parent_dir :: "string \<Rightarrow> string" where
  "parent_dir file = dir_prefix (dirname file) @ ''..''"

definition example_file :: string where
  "example_file = ''scripts/generate_icon.py''"

definition example_world :: world where
  "example_world =
     \<lparr>cwd = [''repo''],
      nodes = [[''repo''] \<mapsto> Dir, [''repo'', ''scripts''] \<mapsto> Dir],
      writable = (\<lambda>p. True), free_space = 4096, open_files = [], trace = [], stdout = [],
      stdout_error = (\<lambda>s. None), flush_fails = False\<rparr>"

definition example_written :: world where
  "example_written =
     \<lparr>cwd = [''repo''],
      nodes = [[''repo''] \<mapsto> Dir, [''repo'', ''scripts''] \<mapsto> Dir,
               [''repo'', ''src-tauri''] \<mapsto> Dir, [''repo'', ''src-tauri'', ''icons''] \<mapsto> Dir,
               [''repo'', ''src-tauri'', ''icons'', ''icon.svg''] \<mapsto> File (generate_icon_svg ())],
      writable = (\<lambda>p. True), free_space = 2077, open_files = [],
      trace = [Mkdir ''scripts/../src-tauri'' (Inr ()), Mkdir ''scripts/../src-tauri/icons'' (Inr ()),
               Open ''scripts/../src-tauri/icons/icon.svg'' (Inr 3),
               Write 3 (generate_icon_svg ()) (Inr 2019), Close 3],
      stdout = guidance example_file, stdout_error = (\<lambda>s. None), flush_fails = False\<rparr>"

definition example_read_only :: world where
  "example_read_only = example_world\<lparr>writable := (\<lambda>p. False)\<rparr>"

definition fs_ok :: "string \<Rightarrow> world \<Rightarrow> bool" where
  "fs_ok file w =
     (case makedirs (output_dir file) True w of
        (Inl e, w1) \<Rightarrow> False
      | (Inr u, w1) \<Rightarrow> (case write_icon file w1 of (Inl e, w2) \<Rightarrow> False | (Inr n, w2) \<Rightarrow> True))"

definition example_ascii :: world where
  "example_ascii =
     example_world\<lparr>stdout_error :=
       (\<lambda>s. if list_all (\<lambda>c. \<not> digit7 c) s then None else Some UnicodeEncodeError)\<rparr>"

definition fresh_ready :: "string \<Rightarrow> world \<Rightarrow> path \<Rightarrow> bool" where
  "fresh_ready file w q \<longleftrightarrow>
     resolve w (parent_dir file) = Inr q \<and> node_at (nodes w) q = Some Dir \<and> writable w q \<and>
     nodes w (q @ [''src-tauri'']) = None \<and> nodes w (q @ [''src-tauri'', ''icons'']) = None \<and>
     nodes w (q @ [''src-tauri'', ''icons'', ''icon.svg'']) = None \<and>
     length (generate_icon_svg ()) \<le> free_space w \<and>
     console_takes (printed_lines file) w"

lemma split_on_snoc:
  "d \<notin> set a \<Longrightarrow> split_on d (a @ d # b) = a # split_on d b"
  by (induction a) auto

lemma split_on_single:
  "d \<notin> set a \<Longrightarrow> split_on d a = [a]"
  by (induction a) auto

section \<open>Properties of the document\<close>

subsection \<open>Reading line by line\<close>

lemma first_line_text_line:
  "CHR 0x0A \<notin> set a \<Longrightarrow> first_line (text_line a @ b) = a"
  by (simp add: first_line_def text_line_def takeWhile_append takeWhile_eq_all_conv[THEN iffD2])

lemma takeWhile_name_line:
  "takeWhile (\<lambda>d. \<not> name_end d) (a @ CHR 0x0A # b) = takeWhile (\<lambda>d. \<not> name_end d) (a @ [CHR 0x0A])"
  by (induction a) (simp_all add: name_end_def)

lemma start_tags_snoc_nl:
  "start_tags (a @ CHR 0x0A # b) = start_tags (a @ [CHR 0x0A]) @ start_tags b"
proof (induction a)
  case Nil
  show ?case by simp
next
  case (Cons c a)
  have h: "hd (a @ CHR 0x0A # b) = hd (a @ [CHR 0x0A])"
    by (cases a) simp_all
  have t: "takeWhile (\<lambda>d. \<not> name_end d) (a @ CHR 0x0A # b) = takeWhile (\<lambda>d. \<not> name_end d) (a @ [CHR 0x0A])"
    by (rule takeWhile_name_line)
  show ?case
    unfolding append_Cons start_tags.simps h t Cons.IH by simp
qed

lemma start_tags_text_line:
  "start_tags (text_line a @ b) = start_tags (text_line a) @ start_tags b"
  using start_tags_snoc_nl[of a b] by (simp add: text_line_def)

lemma sublist_text_line:
  assumes "CHR 0x0A \<notin> set k"
  shows "sublist k (text_line a @ b) \<longleftrightarrow> sublist k (text_line a) \<or> sublist k b"
proof
  assume "sublist k (text_line a @ b)"
  then consider "sublist k (text_line a)" | "sublist k b"
    | xs1 xs2 where "k = xs1 @ xs2" "suffix xs1 (text_line a)" "prefix xs2 b"
    unfolding sublist_append by blast
  then show "sublist k (text_line a) \<or> sublist k b"
  proof cases
    case 3
    show ?thesis
    proof (cases "xs1 = []")
      case True
      with 3 have "prefix k b" by simp
      then show ?thesis by (simp add: prefix_imp_sublist)
    next
      case False
      from 3(2) obtain ys where "text_line a = ys @ xs1" by (auto simp: suffix_def)
      with False have "last xs1 = CHR 0x0A"
        unfolding text_line_def by (metis last_appendR last_snoc)
      with False have "CHR 0x0A \<in> set xs1" by (metis last_in_set)
      with 3(1) assms show ?thesis by simp
    qed
  qed simp_all
next
  assume "sublist k (text_line a) \<or> sublist k b"
  then show "sublist k (text_line a @ b)"
    unfolding sublist_append by blast
qed

lemma doc_lines_text_line:
  "CHR 0x0A \<notin> set a \<Longrightarrow> doc_lines (text_line a @ b) = a # doc_lines b"
  by (simp add: doc_lines_def text_line_def split_on_snoc)

lemma svg_first_line:
  \<open>first_line (generate_icon_svg ()) = ''<?xml version="1.0" encoding="UTF-8"?>''\<close>
  unfolding generate_icon_svg_def Let_def
  by (rule first_line_text_line) simp

lemma svg_start_tags:
  \<open>start_tags (generate_icon_svg ()) =
     [''svg'', ''defs'', ''linearGradient'', ''stop'', ''stop'', ''linearGradient'', ''stop'', ''stop'',
      ''circle'', ''g'', ''path'', ''path'', ''circle'', ''circle'', ''circle'', ''circle'',
      ''line'', ''line'', ''line'', ''line'', ''line'', ''line'']\<close>
  unfolding generate_icon_svg_def Let_def
  apply (simp only: start_tags_text_line)
  apply (simp add: text_line_def name_end_def)
  done

lemma svg_contains_bgGrad:
  \<open>sublist ''id="bgGrad"'' (generate_icon_svg ())\<close>
  unfolding generate_icon_svg_def Let_def
  apply (simp add: sublist_text_line)
  apply (simp add: text_line_def sublist_Cons_right)
  done

lemma svg_contains_iconGrad:
  \<open>sublist ''id="iconGrad"'' (generate_icon_svg ())\<close>
  unfolding generate_icon_svg_def Let_def
  apply (simp add: sublist_text_line)
  apply (simp add: text_line_def sublist_Cons_right)
  done

lemma svg_gradient_refs:
  \<open>gradient_refs (generate_icon_svg ()) =
     [''bgGrad'', ''iconGrad'', ''iconGrad'', ''iconGrad'', ''iconGrad'', ''iconGrad'', ''iconGrad'',
      ''iconGrad'', ''iconGrad'', ''iconGrad'', ''iconGrad'', ''iconGrad'', ''iconGrad'']\<close>
  unfolding generate_icon_svg_def Let_def gradient_refs_def
  apply (simp add: doc_lines_text_line)
  apply (simp add: doc_lines_def)
  done

lemma svg_gradient_ids:
  \<open>gradient_ids (generate_icon_svg ()) = [''bgGrad'', ''iconGrad'']\<close>
  unfolding generate_icon_svg_def Let_def gradient_ids_def defs_section_def
  apply (simp add: doc_lines_text_line sublist_Cons_right)
  done

section \<open>Properties of the file system and the program\<close>

subsection \<open>What the operations change\<close>

lemma dirs_added_refl: "dirs_added w w"
  by (simp add: dirs_added_def)

lemma dirs_added_trans:
  assumes "dirs_added w w1" "dirs_added w1 w2"
  shows "dirs_added w w2"
proof -
  from assms obtain e1 e2 where
    "trace w1 = trace w @ e1" "list_all is_mkdir e1" "trace w2 = trace w1 @ e2" "list_all is_mkdir e2"
    by (auto simp: dirs_added_def)
  then have "trace w2 = trace w @ (e1 @ e2) \<and> list_all is_mkdir (e1 @ e2)" by simp
  then have t: "\<exists>evs. trace w2 = trace w @ evs \<and> list_all is_mkdir evs" by blast
  have n: "nodes w2 q = nodes w q \<or> (nodes w q = None \<and> nodes w2 q = Some Dir)" for q
    using assms unfolding dirs_added_def by (metis option.distinct(1))
  show ?thesis
    using assms t n unfolding dirs_added_def by simp
qed

lemma mkdir_result_cases:
  assumes "mkdir_result s w = (r, w1)"
  shows "(\<exists>e. r = Inl e \<and> w1 = w) \<or>
         (\<exists>p. r = Inr () \<and> nodes w p = None \<and> writable w (butlast p) \<and>
              resolve w (if rstrip_sep s = [] then s else rstrip_sep s) = Inr p \<and>
              w1 = w\<lparr>nodes := (nodes w)(p \<mapsto> Dir), writable := (writable w)(p := True)\<rparr>)"
  using assms
  by (auto simp: mkdir_result_def node_at_def split: sum.splits if_splits)

lemma mkdir_dirs_added:
  assumes "mkdir s w = (r, w1)"
  shows "dirs_added w w1"
proof -
  obtain w0 where m: "mkdir_result s w = (r, w0)" and w1: "w1 = log (Mkdir s r) w0"
    using assms by (auto simp: mkdir_def split: prod.splits)
  from mkdir_result_cases[OF m] show ?thesis
    by (auto simp: w1 log_def dirs_added_def is_mkdir_def split: if_splits)
qed

lemma makedirs_leaf_dirs_added:
  assumes "makedirs_leaf name ok w = (r, w1)"
  shows "dirs_added w w1"
  using assms mkdir_dirs_added
  by (auto simp: makedirs_leaf_def split: prod.splits sum.splits if_splits)

lemma makedirs_dirs_added:
  "makedirs name ok w = (r, w1) \<Longrightarrow> dirs_added w w1"
proof (induction name ok w arbitrary: r w1 rule: makedirs.induct)
  case (1 name ok w)
  obtain h t where ht: "makedirs_split name = (h, t)" by (cases "makedirs_split name")
  show ?case
  proof (cases "h \<noteq> [] \<and> t \<noteq> [] \<and> \<not> path_exists h w")
    case False
    then have "makedirs name ok w = makedirs_leaf name ok w"
      using ht by (auto simp: makedirs.simps[of name ok w])
    with "1.prems" have "makedirs_leaf name ok w = (r, w1)" by simp
    then show ?thesis by (rule makedirs_leaf_dirs_added)
  next
    case True
    obtain r0 w0 where rec: "makedirs h ok w = (r0, w0)" by (cases "makedirs h ok w")
    have a: "dirs_added w w0"
      using "1.IH"[OF ht[symmetric] _ rec] True by simp
    have "w1 = w0 \<or> makedirs_leaf name ok w0 = (r, w1)"
      using "1.prems" True ht rec
      by (auto simp: makedirs.simps[of name ok w] split: sum.splits if_splits)
    then show ?thesis
      using a makedirs_leaf_dirs_added dirs_added_trans by blast
  qed
qed

subsection \<open>Opening, writing and closing\<close>

lemma fresh_fd_greater: "(f, p) \<in> set fs \<Longrightarrow> f < fresh_fd fs"
  by (induction fs rule: fresh_fd.induct) auto

lemma filter_fresh_fd: "filter (\<lambda>(f, p). f \<noteq> fresh_fd fs) fs = fs"
proof -
  have "\<forall>x\<in>set fs. (case x of (f, p) \<Rightarrow> f \<noteq> fresh_fd fs)"
    using fresh_fd_greater by fastforce
  then show ?thesis by (simp only: filter_True)
qed

lemma open_result_cases:
  assumes "open_result s w = (r, w1)"
  shows "(\<exists>e. r = Inl e \<and> w1 = w) \<or>
         (\<exists>p. r = Inr (fresh_fd (open_files w)) \<and> resolve w s = Inr p \<and>
              node_at (nodes w) p \<noteq> Some Dir \<and> p \<noteq> [] \<and>
              w1 = w\<lparr>nodes := (nodes w)(p \<mapsto> File []),
                     writable := (writable w)(p := True),
                     free_space := free_space w + old_length w p,
                     open_files := (fresh_fd (open_files w), p) # open_files w\<rparr>)"
proof (cases "resolve w s")
  case (Inl e)
  with assms show ?thesis by (auto simp: open_result_def)
next
  case (Inr p)
  have e: "(writable w)(p := True) = writable w" if "writable w p"
    using that by (auto simp: fun_eq_iff)
  show ?thesis
  proof (cases "node_at (nodes w) p")
    case None
    then have "p \<noteq> []" "nodes w p = None" by (auto simp: node_at_def split: if_splits)
    with assms Inr None show ?thesis
      by (auto simp: open_result_def old_length_def split: if_splits)
  next
    case (Some n)
    show ?thesis
    proof (cases n)
      case Dir
      with assms Inr Some show ?thesis by (auto simp: open_result_def)
    next
      case (File c)
      with Some have "p \<noteq> []" "nodes w p = Some (File c)"
        by (auto simp: node_at_def split: if_splits)
      with assms Inr Some File show ?thesis
        by (auto simp: open_result_def old_length_def e split: if_splits)
    qed
  qed
qed

lemma write_block_cases:
  assumes "with_open_w s (\<lambda>f. file_write f data) w = (r, w2)"
  shows "(\<exists>e. r = Inl e \<and> open_result s w = (Inl e, w) \<and> w2 = log (Open s (Inl e)) w) \<or>
         (\<exists>p. resolve w s = Inr p \<and> node_at (nodes w) p \<noteq> Some Dir \<and> p \<noteq> [] \<and>
              fst (open_result s w) = Inr (fresh_fd (open_files w)) \<and>
              r = (if written w p data < length data then Inl NoSpaceError else Inr (length data)) \<and>
              w2 = w\<lparr>nodes := (nodes w)(p \<mapsto> File (take (written w p data) data)),
                     writable := (writable w)(p := True),
                     free_space := free_space w + old_length w p - written w p data,
                     trace := trace w @ [Open s (Inr (fresh_fd (open_files w))),
                                         Write (fresh_fd (open_files w)) data r,
                                         Close (fresh_fd (open_files w))]\<rparr>)"
proof -
  obtain r0 w0 where o: "open_result s w = (r0, w0)" by (cases "open_result s w")
  from open_result_cases[OF o] show ?thesis
  proof (elim disjE exE conjE)
    fix e assume "r0 = Inl e" "w0 = w"
    with assms o show ?thesis
      by (auto simp: with_open_w_def open_w_def)
  next
    fix p
    assume h: "r0 = Inr (fresh_fd (open_files w))" "resolve w s = Inr p"
      "node_at (nodes w) p \<noteq> Some Dir" "p \<noteq> []"
      "w0 = w\<lparr>nodes := (nodes w)(p \<mapsto> File []),
                     writable := (writable w)(p := True),
                     free_space := free_space w + old_length w p,
                     open_files := (fresh_fd (open_files w), p) # open_files w\<rparr>"
    with assms o show ?thesis
      by (auto simp: with_open_w_def open_w_def file_write_def write_result_def log_def Let_def
          file_close_def written_def filter_fresh_fd split: if_splits)
  qed
qed

lemma print_lines_takes:
  "console_takes ss w \<Longrightarrow>
     print_lines ss w = (Inr (), w\<lparr>stdout := stdout w @ map (\<lambda>s. s @ [CHR 0x0A]) ss\<rparr>)"
proof (induction ss arbitrary: w)
  case Nil
  show ?case by simp
next
  case (Cons s ss)
  from Cons.prems have h: "stdout_error w s = None" "console_takes ss w"
    by (simp_all add: console_takes_def)
  let ?w1 = "w\<lparr>stdout := stdout w @ [s @ [CHR 0x0A]]\<rparr>"
  have "console_takes ss ?w1" using h(2) by (simp add: console_takes_def)
  from Cons.IH[OF this] h(1) show ?case by (simp add: print_def)
qed

lemma print_lines_refused:
  "\<not> console_takes ss w \<Longrightarrow> \<exists>e w1. print_lines ss w = (Inl e, w1)"
proof (induction ss arbitrary: w)
  case Nil
  then show ?case by (simp add: console_takes_def)
next
  case (Cons s ss)
  show ?case
  proof (cases "stdout_error w s")
    case (Some e)
    then show ?thesis by (simp add: print_def)
  next
    case None
    let ?w1 = "w\<lparr>stdout := stdout w @ [s @ [CHR 0x0A]]\<rparr>"
    from Cons.prems None have "\<not> console_takes ss ?w1" by (simp add: console_takes_def)
    from Cons.IH[OF this] None show ?thesis by (simp add: print_def)
  qed
qed

lemma print_lines_frame:
  "print_lines ss w = (r, w1) \<Longrightarrow>
     nodes w1 = nodes w \<and> cwd w1 = cwd w \<and> writable w1 = writable w \<and>
     free_space w1 = free_space w \<and> open_files w1 = open_files w \<and> trace w1 = trace w \<and>
     stdout_error w1 = stdout_error w \<and> flush_fails w1 = flush_fails w"
proof (induction ss arbitrary: w)
  case Nil
  then show ?case by auto
next
  case (Cons s ss)
  show ?case
  proof (cases "stdout_error w s")
    case (Some e)
    with Cons.prems show ?thesis by (auto simp: print_def)
  next
    case None
    with Cons.prems have "print_lines ss (w\<lparr>stdout := stdout w @ [s @ [CHR 0x0A]]\<rparr>) = (r, w1)"
      by (simp add: print_def)
    from Cons.IH[OF this] show ?thesis by simp
  qed
qed

lemma print_last: "(case print s w of (Inl e, w1) \<Rightarrow> (Inl e, w1) | (Inr u, w1) \<Rightarrow> (Inr (), w1)) = print s w"
  by (simp add: print_def split: option.splits)

lemma main_stages:
  "main file w =
     (case makedirs (output_dir file) True w of
        (Inl e, w1) \<Rightarrow> (Inl e, w1)
      | (Inr u, w1) \<Rightarrow>
          (case write_icon file w1 of
             (Inl e, w2) \<Rightarrow> (Inl e, w2)
           | (Inr n, w2) \<Rightarrow> print_lines (printed_lines file) w2))"
  by (simp add: main_def bind_def Let_def output_dir_def svg_path_def write_icon_def
      printed_lines_def print_last split: prod.splits sum.splits)

lemma main_success:
  assumes "main file w = (Inr (), w')"
  obtains w1 w2 n where
    "makedirs (output_dir file) True w = (Inr (), w1)"
    "write_icon file w1 = (Inr n, w2)"
    "w' = w2\<lparr>stdout := stdout w2 @ guidance file\<rparr>"
    "console_takes (printed_lines file) w2"
proof -
  from assms obtain w1 w2 n where
    a: "makedirs (output_dir file) True w = (Inr (), w1)" "write_icon file w1 = (Inr n, w2)"
      "print_lines (printed_lines file) w2 = (Inr (), w')"
    unfolding main_stages by (auto split: prod.splits sum.splits)
  have t: "console_takes (printed_lines file) w2"
    using a(3) print_lines_refused[of "printed_lines file" w2] by auto
  from print_lines_takes[OF t] a(3) have "w' = w2\<lparr>stdout := stdout w2 @ guidance file\<rparr>"
    by (simp add: guidance_def)
  with a(1,2) t that show ?thesis by blast
qed

lemma main_after_write:
  assumes "makedirs (output_dir file) True w = (Inr (), w1)" "write_icon file w1 = (r2, w2)"
  shows "nodes (snd (main file w)) = nodes w2 \<and> cwd (snd (main file w)) = cwd w2 \<and>
         open_files (snd (main file w)) = open_files w2 \<and> trace (snd (main file w)) = trace w2"
proof (cases r2)
  case (Inl e)
  with assms show ?thesis by (simp add: main_stages)
next
  case (Inr n)
  obtain r3 w3 where p: "print_lines (printed_lines file) w2 = (r3, w3)"
    by (cases "print_lines (printed_lines file) w2")
  with assms Inr have "snd (main file w) = w3" by (simp add: main_stages)
  with print_lines_frame[OF p] show ?thesis by simp
qed

lemma walk_update_other:
  assumes "node_at ns p \<noteq> Some Dir"
  shows "walk ns cur cs = Inr q \<Longrightarrow> walk (ns(p \<mapsto> v)) cur cs = Inr q"
proof (induction cs arbitrary: cur)
  case Nil
  then show ?case by simp
next
  case (Cons c cs)
  from Cons.prems have d: "node_at ns cur = Some Dir"
    by (auto split: if_splits)
  with assms have "cur \<noteq> p" by auto
  with d have d': "node_at (ns(p \<mapsto> v)) cur = Some Dir"
    by (auto simp: node_at_def)
  from Cons.prems d have
    "walk ns (if c = [] \<or> c = ''.'' then cur else if c = ''..'' then butlast cur else cur @ [c]) cs = Inr q"
    by (auto split: if_splits)
  then have
    "walk (ns(p \<mapsto> v)) (if c = [] \<or> c = ''.'' then cur else if c = ''..'' then butlast cur else cur @ [c]) cs = Inr q"
    by (rule Cons.IH)
  with d' show ?case by (auto simp del: fun_upd_apply split: if_splits)
qed

lemma resolve_update_other:
  assumes "resolve w s = Inr q" "node_at (nodes w) p \<noteq> Some Dir"
    "nodes w1 = (nodes w)(p \<mapsto> v)" "cwd w1 = cwd w"
  shows "resolve w1 s = Inr q"
  using assms walk_update_other[of "nodes w" p _ "components s" q v]
  by (auto simp: resolve_def split: if_splits)

lemma write_icon_success:
  assumes "write_icon file w = (Inr n, w2)"
  obtains p where
    "resolve w (svg_path file) = Inr p" "node_at (nodes w) p \<noteq> Some Dir" "p \<noteq> []"
    "nodes w2 = (nodes w)(p \<mapsto> File (generate_icon_svg ()))"
    "cwd w2 = cwd w" "open_files w2 = open_files w" "stdout w2 = stdout w"
    "writable w2 = (writable w)(p := True)"
    "free_space w2 + length (generate_icon_svg ()) = free_space w + old_length w p"
proof -
  from write_block_cases[OF assms[unfolded write_icon_def]]
  obtain p where p: "resolve w (svg_path file) = Inr p" "node_at (nodes w) p \<noteq> Some Dir" "p \<noteq> []"
    and r: "Inr n = (if written w p (generate_icon_svg ()) < length (generate_icon_svg ())
              then Inl NoSpaceError else Inr (length (generate_icon_svg ())))"
    and w2: "w2 = w\<lparr>nodes := (nodes w)(p \<mapsto> File (take (written w p (generate_icon_svg ())) (generate_icon_svg ()))),
                     writable := (writable w)(p := True),
                     free_space := free_space w + old_length w p - written w p (generate_icon_svg ()),
                     trace := trace w @ [Open (svg_path file) (Inr (fresh_fd (open_files w))),
                                         Write (fresh_fd (open_files w)) (generate_icon_svg ()) (Inr n),
                                         Close (fresh_fd (open_files w))]\<rparr>"
    by auto
  from r have full: "written w p (generate_icon_svg ()) = length (generate_icon_svg ())"
    by (auto simp: written_def split: if_splits)
  then have "length (generate_icon_svg ()) \<le> free_space w + old_length w p"
    by (simp add: written_def)
  with p w2 full that show ?thesis by simp
qed

subsection \<open>Path strings\<close>

lemma output_dir_eq: "output_dir file = dir_prefix (dirname file) @ ''../src-tauri/icons''"
  by (simp add: output_dir_def join_def join_step_def dir_prefix_def)

lemma svg_path_eq: "svg_path file = output_dir file @ ''/icon.svg''"
  by (simp add: svg_path_def join_def join_step_def output_dir_eq)

lemma split_on_nonempty: "split_on d s \<noteq> []"
  by (induction s) (auto split: list.splits)

lemma split_on_append: "split_on d (a @ d # b) = split_on d a @ split_on d b"
proof (induction a)
  case Nil
  show ?case by simp
next
  case (Cons c a)
  obtain x xs where x: "split_on d a = x # xs"
    using split_on_nonempty[of d a] by (cases "split_on d a") auto
  with Cons show ?case by simp
qed

lemma components_child:
  "CHR ''/'' \<notin> set t \<Longrightarrow> components (h @ CHR ''/'' # t) = components h @ [t]"
  by (simp add: components_def split_on_append split_on_single)

lemma walk_append:
  "walk ns cur (xs @ ys) = (case walk ns cur xs of Inl e \<Rightarrow> Inl e | Inr q \<Rightarrow> walk ns q ys)"
  by (induction xs arbitrary: cur) simp_all

lemma resolve_child:
  assumes "h \<noteq> []" "CHR ''/'' \<notin> set t"
  shows "resolve w (h @ CHR ''/'' # t) =
           (case resolve w h of Inl e \<Rightarrow> Inl e | Inr q \<Rightarrow> walk (nodes w) q [t])"
  using assms by (simp add: resolve_def components_child walk_append)

lemma walk_name:
  assumes "t \<noteq> []" "t \<noteq> ''.''" "t \<noteq> ''..''"
  shows "walk ns q [t] = Inr p \<longleftrightarrow> node_at ns q = Some Dir \<and> p = q @ [t]"
  using assms by auto

lemma resolve_icon:
  assumes "resolve w (svg_path file) = Inr p"
  obtains d where "resolve w (output_dir file) = Inr d" "node_at (nodes w) d = Some Dir"
    "p = d @ [''icon.svg'']"
proof -
  have "resolve w (output_dir file @ CHR ''/'' # ''icon.svg'') =
          (case resolve w (output_dir file) of Inl e \<Rightarrow> Inl e
           | Inr q \<Rightarrow> walk (nodes w) q [''icon.svg''])"
    by (rule resolve_child) (simp_all add: output_dir_eq)
  with assms obtain d where d: "resolve w (output_dir file) = Inr d"
    "walk (nodes w) d [''icon.svg''] = Inr p"
    by (cases "resolve w (output_dir file)") (auto simp: svg_path_eq simp del: walk.simps)
  from d(2) have "node_at (nodes w) d = Some Dir \<and> p = d @ [''icon.svg'']"
    by (subst (asm) walk_name) simp_all
  with d(1) that show ?thesis by blast
qed

lemma dirs_added_files:
  assumes "dirs_added w w1"
  shows "(nodes w1 q = Some (File c)) = (nodes w q = Some (File c))"
  using assms unfolding dirs_added_def by (metis node.distinct(1) option.distinct(1) option.inject)

lemma resolve_same:
  "nodes w1 = nodes w \<Longrightarrow> cwd w1 = cwd w \<Longrightarrow> resolve w1 s = resolve w s"
  by (simp add: resolve_def)

lemma writes_mkdirs: "list_all is_mkdir evs \<Longrightarrow> writes evs = []"
  by (induction evs) (auto simp: writes_def is_mkdir_def split: event.splits)

subsection \<open>A read-only file system\<close>

lemma mkdir_read_only:
  assumes "read_only w" "mkdir s w = (r, w1)"
  shows "same_tree w w1"
proof -
  obtain w0 where m: "mkdir_result s w = (r, w0)" and w1: "w1 = log (Mkdir s r) w0"
    using assms(2) by (auto simp: mkdir_def split: prod.splits)
  from mkdir_result_cases[OF m] assms(1) have "w0 = w"
    by (auto simp: read_only_def)
  then show ?thesis by (simp add: w1 log_def same_tree_def)
qed

lemma makedirs_leaf_read_only:
  assumes "read_only w" "makedirs_leaf name ok w = (r, w1)"
  shows "same_tree w w1"
  using assms mkdir_read_only
  by (auto simp: makedirs_leaf_def split: prod.splits sum.splits if_splits)

lemma same_tree_read_only: "same_tree w w1 \<Longrightarrow> read_only w \<Longrightarrow> read_only w1"
  by (simp add: same_tree_def read_only_def)

lemma same_tree_trans: "same_tree w w1 \<Longrightarrow> same_tree w1 w2 \<Longrightarrow> same_tree w w2"
  by (simp add: same_tree_def)

lemma makedirs_read_only:
  "read_only w \<Longrightarrow> makedirs name ok w = (r, w1) \<Longrightarrow> same_tree w w1"
proof (induction name ok w arbitrary: r w1 rule: makedirs.induct)
  case (1 name ok w)
  obtain h t where ht: "makedirs_split name = (h, t)" by (cases "makedirs_split name")
  show ?case
  proof (cases "h \<noteq> [] \<and> t \<noteq> [] \<and> \<not> path_exists h w")
    case False
    then have "makedirs name ok w = makedirs_leaf name ok w"
      using ht by (auto simp: makedirs.simps[of name ok w])
    with "1.prems" have "makedirs_leaf name ok w = (r, w1)" by simp
    with "1.prems"(1) show ?thesis by (rule makedirs_leaf_read_only)
  next
    case True
    obtain r0 w0 where rec: "makedirs h ok w = (r0, w0)" by (cases "makedirs h ok w")
    have a: "same_tree w w0"
      using "1.IH"[OF ht[symmetric] _ "1.prems"(1) rec] True by simp
    have "w1 = w0 \<or> makedirs_leaf name ok w0 = (r, w1)"
      using "1.prems"(2) True ht rec
      by (auto simp: makedirs.simps[of name ok w] split: sum.splits if_splits)
    then show ?thesis
      using a makedirs_leaf_read_only same_tree_read_only[OF a "1.prems"(1)] same_tree_trans
      by blast
  qed
qed

lemma open_read_only:
  assumes "read_only w"
  shows "\<exists>e. open_result s w = (Inl e, w)"
  using assms
  by (auto simp: open_result_def read_only_def split: sum.splits option.splits node.splits)

lemma write_icon_open_fails:
  assumes "open_result (svg_path file) w = (Inl e, w)"
  shows "write_icon file w = (Inl e, log (Open (svg_path file) (Inl e)) w)"
  using assms by (simp add: write_icon_def with_open_w_def open_w_def)

subsection \<open>Splitting the output directory\<close>

lemma rstrip_sep_id: "s \<noteq> [] \<Longrightarrow> last s \<noteq> CHR ''/'' \<Longrightarrow> rstrip_sep s = s"
proof -
  assume a: "s \<noteq> []" "last s \<noteq> CHR ''/''"
  then have "hd (rev s) \<noteq> CHR ''/''" "rev s \<noteq> []" by (simp_all add: hd_rev)
  then have "dropWhile (\<lambda>c. c = CHR ''/'') (rev s) = rev s"
    by (cases "rev s") auto
  then show ?thesis by (simp add: rstrip_sep_def)
qed

lemma split_path_child:
  assumes "h \<noteq> []" "last h \<noteq> CHR ''/''" "CHR ''/'' \<notin> set t"
  shows "split_path (h @ CHR ''/'' # t) = (h, t)"
proof -
  have r: "rev (h @ CHR ''/'' # t) = rev t @ CHR ''/'' # rev h" by simp
  have t: "takeWhile (\<lambda>c. c \<noteq> CHR ''/'') (rev t @ CHR ''/'' # rev h) = rev t"
    using assms(3) by (subst takeWhile_append2) auto
  have d: "dropWhile (\<lambda>c. c \<noteq> CHR ''/'') (rev t @ CHR ''/'' # rev h) = CHR ''/'' # rev h"
    using assms(3) by (subst dropWhile_append2) auto
  have "last h \<in> set (h @ ''/'')" using assms(1) by simp
  then have n: "h @ ''/'' \<noteq> replicate (length (h @ ''/'')) (CHR ''/'')"
    using assms(2) by (metis in_set_replicate)
  have s: "rstrip_sep (h @ ''/'') = h"
    using rstrip_sep_id[OF assms(1,2)] by (simp add: rstrip_sep_def)
  show ?thesis
    unfolding split_path_def r t d Let_def using n s by simp
qed

lemma output_dir_child: "output_dir file = src_tauri_dir file @ CHR ''/'' # ''icons''"
  by (simp add: output_dir_eq src_tauri_dir_def)

lemma src_tauri_dir_child: "src_tauri_dir file = parent_dir file @ CHR ''/'' # ''src-tauri''"
  by (simp add: parent_dir_def src_tauri_dir_def)

lemma makedirs_split_output_dir: "makedirs_split (output_dir file) = (src_tauri_dir file, ''icons'')"
proof -
  have "split_path (src_tauri_dir file @ CHR ''/'' # ''icons'') = (src_tauri_dir file, ''icons'')"
    by (rule split_path_child) (simp_all add: src_tauri_dir_def)
  then show ?thesis by (simp add: makedirs_split_def output_dir_child)
qed

lemma makedirs_split_src_tauri: "makedirs_split (src_tauri_dir file) = (parent_dir file, ''src-tauri'')"
proof -
  have "split_path (parent_dir file @ CHR ''/'' # ''src-tauri'') = (parent_dir file, ''src-tauri'')"
    by (rule split_path_child) (simp_all add: parent_dir_def)
  then show ?thesis by (simp add: makedirs_split_def src_tauri_dir_child)
qed

lemma resolve_output_dir:
  "resolve w (output_dir file) =
     (case resolve w (src_tauri_dir file) of Inl e \<Rightarrow> Inl e
      | Inr q \<Rightarrow> if node_at (nodes w) q = Some Dir then Inr (q @ [''icons''])
                 else Inl (if node_at (nodes w) q = None then FileNotFoundError else NotADirectoryError))"
proof -
  have "resolve w (src_tauri_dir file @ CHR ''/'' # ''icons'') =
          (case resolve w (src_tauri_dir file) of Inl e \<Rightarrow> Inl e
           | Inr q \<Rightarrow> walk (nodes w) q [''icons''])"
    by (rule resolve_child) (simp_all add: src_tauri_dir_def)
  then show ?thesis by (simp add: output_dir_child split: sum.splits)
qed

lemma resolve_src_tauri:
  "resolve w (src_tauri_dir file) =
     (case resolve w (parent_dir file) of Inl e \<Rightarrow> Inl e
      | Inr q \<Rightarrow> if node_at (nodes w) q = Some Dir then Inr (q @ [''src-tauri''])
                 else Inl (if node_at (nodes w) q = None then FileNotFoundError else NotADirectoryError))"
proof -
  have "resolve w (parent_dir file @ CHR ''/'' # ''src-tauri'') =
          (case resolve w (parent_dir file) of Inl e \<Rightarrow> Inl e
           | Inr q \<Rightarrow> walk (nodes w) q [''src-tauri''])"
    by (rule resolve_child) (simp_all add: parent_dir_def)
  then show ?thesis by (simp add: src_tauri_dir_child split: sum.splits)
qed

lemma isdir_output_dir_parent:
  assumes "path_isdir (output_dir file) w"
  shows "path_isdir (src_tauri_dir file) w"
  using assms
  by (auto simp: path_isdir_def resolve_output_dir split: sum.splits if_splits)

lemma isdir_exists: "path_isdir s w \<Longrightarrow> path_exists s w"
  by (auto simp: path_isdir_def path_exists_def split: sum.splits)

lemma nodes_log [simp]: "nodes (log ev w) = nodes w"
  by (simp add: log_def)

lemma resolve_log [simp]: "resolve (log ev w) s = resolve w s"
  by (rule resolve_same) (simp_all add: log_def)

lemma path_isdir_log [simp]: "path_isdir s (log ev w) = path_isdir s w"
  by (simp add: path_isdir_def split: sum.splits)

lemma output_dir_nonempty: "output_dir file \<noteq> []"
  by (simp add: output_dir_eq)

lemma rstrip_output_dir: "rstrip_sep (output_dir file) = output_dir file"
  by (rule rstrip_sep_id) (simp_all add: output_dir_eq)

lemma makedirs_existing:
  assumes "path_isdir (output_dir file) w"
  shows "makedirs (output_dir file) True w =
           (Inr (), log (Mkdir (output_dir file) (Inl FileExistsError)) w)"
proof -
  have "path_exists (src_tauri_dir file) w"
    using assms by (intro isdir_exists isdir_output_dir_parent)
  then have m: "makedirs (output_dir file) True w = makedirs_leaf (output_dir file) True w"
    by (simp add: makedirs.simps[of "output_dir file"] makedirs_split_output_dir)
  from assms obtain d where "resolve w (output_dir file) = Inr d" "node_at (nodes w) d = Some Dir"
    by (auto simp: path_isdir_def split: sum.splits)
  then have "mkdir_result (output_dir file) w = (Inl FileExistsError, w)"
    by (simp add: mkdir_result_def rstrip_output_dir output_dir_nonempty)
  then show ?thesis
    using assms by (simp add: m makedirs_leaf_def mkdir_def)
qed

lemma svg_length: "length (generate_icon_svg ()) = 2019"
  unfolding generate_icon_svg_def Let_def
  by (simp add: text_line_def)

lemma example_output_dir: "output_dir example_file = ''scripts/../src-tauri/icons''"
  by (simp add: example_file_def output_dir_def join_def join_step_def dirname_def rstrip_sep_def)

lemma example_svg_path: "svg_path example_file = ''scripts/../src-tauri/icons/icon.svg''"
  by (simp add: svg_path_eq example_output_dir)

lemma example_makedirs:
  "makedirs ''scripts/../src-tauri/icons'' True example_world =
     (Inr (), example_world\<lparr>
        nodes := [[''repo''] \<mapsto> Dir, [''repo'', ''scripts''] \<mapsto> Dir,
               [''repo'', ''src-tauri''] \<mapsto> Dir, [''repo'', ''src-tauri'', ''icons''] \<mapsto> Dir],
        trace := [Mkdir ''scripts/../src-tauri'' (Inr ()), Mkdir ''scripts/../src-tauri/icons'' (Inr ())]\<rparr>)"
  by (simp add: makedirs.simps makedirs_split_def split_path_def rstrip_sep_def Let_def
      path_exists_def path_isdir_def resolve_def components_def node_at_def makedirs_leaf_def mkdir_def
      mkdir_result_def log_def example_world_def fun_eq_iff)

lemma example_write_icon:
  "write_icon example_file (example_world\<lparr>
        nodes := [[''repo''] \<mapsto> Dir, [''repo'', ''scripts''] \<mapsto> Dir,
               [''repo'', ''src-tauri''] \<mapsto> Dir, [''repo'', ''src-tauri'', ''icons''] \<mapsto> Dir],
        trace := [Mkdir ''scripts/../src-tauri'' (Inr ()), Mkdir ''scripts/../src-tauri/icons'' (Inr ())]\<rparr>) =
     (Inr 2019, example_written\<lparr>stdout := []\<rparr>)"
  by (simp add: example_svg_path
      write_icon_def with_open_w_def open_w_def open_result_def file_write_def write_result_def
      file_close_def resolve_def components_def node_at_def log_def Let_def svg_length
      example_world_def example_written_def fun_eq_iff)

lemma example_run: "main example_file example_world = (Inr (), example_written)"
proof -
  have "console_takes (printed_lines example_file) (example_written\<lparr>stdout := []\<rparr>)"
    by (simp add: console_takes_def example_written_def list_all_iff)
  from print_lines_takes[OF this]
  have p: "print_lines (printed_lines example_file) (example_written\<lparr>stdout := []\<rparr>) =
      (Inr (), example_written)"
    by (simp add: guidance_def example_written_def)
  show ?thesis
    by (simp add: main_stages example_output_dir example_makedirs example_write_icon p)
qed

lemma example_read_only_makedirs:
  "makedirs (output_dir example_file) True example_read_only =
     (Inl PermissionError,
      example_read_only\<lparr>trace := [Mkdir ''scripts/../src-tauri'' (Inl PermissionError)]\<rparr>)"
  unfolding example_output_dir
  by (simp add: makedirs.simps makedirs_split_def split_path_def rstrip_sep_def Let_def
      path_exists_def path_isdir_def resolve_def components_def node_at_def makedirs_leaf_def mkdir_def
      mkdir_result_def log_def example_world_def example_read_only_def)

lemma write_icon_frame:
  assumes "write_icon file w = (r, w2)"
  shows "stdout w2 = stdout w \<and> stdout_error w2 = stdout_error w \<and> flush_fails w2 = flush_fails w"
  using write_block_cases[OF assms[unfolded write_icon_def]]
  by (auto simp: log_def)

lemma guidance_nonempty: "guidance file \<noteq> []"
  by (simp add: guidance_def printed_lines_def)

lemma example_fs_ok: "fs_ok example_file example_world"
  by (simp add: fs_ok_def example_output_dir example_makedirs example_write_icon)

lemma example_ascii_makedirs:
  "makedirs (output_dir example_file) True example_ascii =
     (Inr (), example_ascii\<lparr>
        nodes := [[''repo''] \<mapsto> Dir, [''repo'', ''scripts''] \<mapsto> Dir,
               [''repo'', ''src-tauri''] \<mapsto> Dir, [''repo'', ''src-tauri'', ''icons''] \<mapsto> Dir],
        trace := [Mkdir ''scripts/../src-tauri'' (Inr ()), Mkdir ''scripts/../src-tauri/icons'' (Inr ())]\<rparr>)"
  unfolding example_output_dir
  by (simp add: makedirs.simps makedirs_split_def split_path_def rstrip_sep_def Let_def
      path_exists_def path_isdir_def resolve_def components_def node_at_def makedirs_leaf_def mkdir_def
      mkdir_result_def log_def example_world_def example_ascii_def fun_eq_iff)

lemma example_ascii_write_icon:
  "write_icon example_file (example_ascii\<lparr>
        nodes := [[''repo''] \<mapsto> Dir, [''repo'', ''scripts''] \<mapsto> Dir,
               [''repo'', ''src-tauri''] \<mapsto> Dir, [''repo'', ''src-tauri'', ''icons''] \<mapsto> Dir],
        trace := [Mkdir ''scripts/../src-tauri'' (Inr ()), Mkdir ''scripts/../src-tauri/icons'' (Inr ())]\<rparr>) =
     (Inr 2019, example_ascii\<lparr>
        nodes := [[''repo''] \<mapsto> Dir, [''repo'', ''scripts''] \<mapsto> Dir,
               [''repo'', ''src-tauri''] \<mapsto> Dir, [''repo'', ''src-tauri'', ''icons''] \<mapsto> Dir,
               [''repo'', ''src-tauri'', ''icons'', ''icon.svg''] \<mapsto> File (generate_icon_svg ())],
        free_space := 2077,
        trace := [Mkdir ''scripts/../src-tauri'' (Inr ()), Mkdir ''scripts/../src-tauri/icons'' (Inr ()),
               Open ''scripts/../src-tauri/icons/icon.svg'' (Inr 3),
               Write 3 (generate_icon_svg ()) (Inr 2019), Close 3]\<rparr>)"
  by (simp add: example_svg_path
      write_icon_def with_open_w_def open_w_def open_result_def file_write_def write_result_def
      file_close_def resolve_def components_def node_at_def log_def Let_def svg_length
      example_world_def example_ascii_def fun_eq_iff)

lemma example_ascii_main:
  "fst (main example_file example_ascii) = Inl UnicodeEncodeError \<and>
   stdout (snd (main example_file example_ascii)) = stdout example_ascii \<and>
   nodes (snd (main example_file example_ascii)) [''repo'', ''src-tauri'', ''icons'', ''icon.svg''] =
     Some (File (generate_icon_svg ()))"
  by (simp add: main_stages example_ascii_makedirs example_ascii_write_icon)
     (simp add: printed_lines_def print_def check_mark_def example_ascii_def example_world_def)

lemma mkdir_result_success:
  assumes "mkdir_result s w = (Inr (), w1)"
  shows "\<exists>p. resolve w (if rstrip_sep s = [] then s else rstrip_sep s) = Inr p \<and>
             node_at (nodes w) p = None \<and>
             w1 = w\<lparr>nodes := (nodes w)(p \<mapsto> Dir), writable := (writable w)(p := True)\<rparr>"
  using assms
  by (auto simp: mkdir_result_def split: sum.splits if_splits)

lemma makedirs_leaf_isdir:
  assumes "makedirs_leaf name True w = (Inr (), w1)" "rstrip_sep name = name" "name \<noteq> []"
  shows "path_isdir name w1"
proof -
  obtain r w0 where m: "mkdir_result name w = (r, w0)" by (cases "mkdir_result name w")
  show ?thesis
  proof (cases r)
    case (Inl e)
    with assms(1) m show ?thesis
      by (auto simp: makedirs_leaf_def mkdir_def split: if_splits)
  next
    case (Inr u)
    with m have "mkdir_result name w = (Inr (), w0)" by simp
    from mkdir_result_success[OF this] assms(2,3) obtain p where
      p: "resolve w name = Inr p" "node_at (nodes w) p = None" and
      w0: "w0 = w\<lparr>nodes := (nodes w)(p \<mapsto> Dir), writable := (writable w)(p := True)\<rparr>"
      by auto
    have "resolve w0 name = Inr p"
      using p(1) by (rule resolve_update_other) (simp_all add: p(2) w0)
    moreover have "node_at (nodes w0) p = Some Dir"
      by (simp add: w0 node_at_def)
    moreover have "w1 = log (Mkdir name (Inr ())) w0"
      using assms(1) m Inr by (simp add: makedirs_leaf_def mkdir_def)
    ultimately show ?thesis by (simp add: path_isdir_def)
  qed
qed

lemma makedirs_output_dir_leaf:
  assumes "makedirs (output_dir file) True w = (Inr (), w1)"
  obtains w0 where "dirs_added w w0" "makedirs_leaf (output_dir file) True w0 = (Inr (), w1)"
proof (cases "path_exists (src_tauri_dir file) w")
  case True
  then have "makedirs (output_dir file) True w = makedirs_leaf (output_dir file) True w"
    by (simp add: makedirs.simps[of "output_dir file"] makedirs_split_output_dir)
  with assms that[of w] show ?thesis by (simp add: dirs_added_refl)
next
  case False
  obtain r0 w0 where rec: "makedirs (src_tauri_dir file) True w = (r0, w0)"
    by (cases "makedirs (src_tauri_dir file) True w")
  have n: "src_tauri_dir file \<noteq> []" by (simp add: src_tauri_dir_def)
  have "makedirs_leaf (output_dir file) True w0 = (Inr (), w1)"
    using assms False rec n
    by (auto simp: makedirs.simps[of "output_dir file"] makedirs_split_output_dir
        split: sum.splits if_splits)
  with makedirs_dirs_added[OF rec] that show ?thesis by blast
qed

lemma makedirs_output_dir_isdir:
  assumes "makedirs (output_dir file) True w = (Inr (), w1)"
  shows "path_isdir (output_dir file) w1"
proof -
  from assms obtain w0 where "makedirs_leaf (output_dir file) True w0 = (Inr (), w1)"
    by (rule makedirs_output_dir_leaf)
  then show ?thesis
    by (rule makedirs_leaf_isdir) (simp_all add: rstrip_output_dir output_dir_nonempty)
qed

lemma write_icon_succeeds:
  assumes "resolve w (svg_path file) = Inr p" "p \<noteq> []"
    "(nodes w p = None \<and> node_at (nodes w) (butlast p) = Some Dir \<and> writable w (butlast p)) \<or>
     (\<exists>c. nodes w p = Some (File c) \<and> writable w p)"
    "length (generate_icon_svg ()) \<le> free_space w + old_length w p"
  shows "write_icon file w =
           (Inr (length (generate_icon_svg ())),
            w\<lparr>nodes := (nodes w)(p \<mapsto> File (generate_icon_svg ())),
              writable := (writable w)(p := True),
              free_space := free_space w + old_length w p - length (generate_icon_svg ()),
              trace := trace w @ [Open (svg_path file) (Inr (fresh_fd (open_files w))),
                Write (fresh_fd (open_files w)) (generate_icon_svg ())
                  (Inr (length (generate_icon_svg ()))),
                Close (fresh_fd (open_files w))]\<rparr>)"
proof -
  have e: "(writable w)(p := True) = writable w" if "writable w p"
    using that by (auto simp: fun_eq_iff)
  from assms(3) have
    o: "open_result (svg_path file) w =
          (Inr (fresh_fd (open_files w)),
           w\<lparr>nodes := (nodes w)(p \<mapsto> File []),
             writable := (writable w)(p := True),
             free_space := free_space w + old_length w p,
             open_files := (fresh_fd (open_files w), p) # open_files w\<rparr>)"
    using assms(1,2)
    by (auto simp: open_result_def node_at_def old_length_def e)
  show ?thesis
    using assms(4)
    by (simp add: write_icon_def with_open_w_def open_w_def o file_write_def write_result_def
        log_def Let_def file_close_def filter_fresh_fd min_def)
qed

lemma old_length_log [simp]: "old_length (log ev w) p = old_length w p"
  by (simp add: old_length_def)


lemma rstrip_src_tauri: "rstrip_sep (src_tauri_dir file) = src_tauri_dir file"
  by (rule rstrip_sep_id) (simp_all add: src_tauri_dir_def)

lemma src_tauri_nonempty: "src_tauri_dir file \<noteq> []"
  by (simp add: src_tauri_dir_def)

lemma makedirs_fresh:
  assumes q: "resolve w (parent_dir file) = Inr q" "node_at (nodes w) q = Some Dir" "writable w q"
    and s: "nodes w (q @ [''src-tauri'']) = None"
    and i: "nodes w (q @ [''src-tauri'', ''icons'']) = None"
  shows "makedirs (output_dir file) True w =
     (Inr (), w\<lparr>nodes := (nodes w)(q @ [''src-tauri''] \<mapsto> Dir, q @ [''src-tauri'', ''icons''] \<mapsto> Dir),
               writable := (writable w)(q @ [''src-tauri''] := True, q @ [''src-tauri'', ''icons''] := True),
               trace := trace w @ [Mkdir (src_tauri_dir file) (Inr ()), Mkdir (output_dir file) (Inr ())]\<rparr>)"
proof -
  let ?S = "src_tauri_dir file" and ?O = "output_dir file"
  let ?wa = "w\<lparr>nodes := (nodes w)(q @ [''src-tauri''] \<mapsto> Dir),
               writable := (writable w)(q @ [''src-tauri''] := True)\<rparr>"
  let ?wb = "log (Mkdir ?S (Inr ())) ?wa"
  have rs: "resolve w ?S = Inr (q @ [''src-tauri''])"
    using q by (simp add: resolve_src_tauri)
  have ns: "node_at (nodes w) (q @ [''src-tauri'']) = None"
    using s by (simp add: node_at_def)
  have ne: "\<not> path_exists ?S w"
    using rs ns by (simp add: path_exists_def)
  have pe: "path_exists (parent_dir file) w"
    using q by (simp add: path_exists_def)
  have "mkdir_result ?S w = (Inr (), ?wa)"
    using rs ns q by (simp add: mkdir_result_def rstrip_src_tauri src_tauri_nonempty)
  then have leaf: "makedirs_leaf ?S True w = (Inr (), ?wb)"
    by (simp add: makedirs_leaf_def mkdir_def)
  have rec: "makedirs ?S True w = (Inr (), ?wb)"
    using pe leaf by (simp add: makedirs.simps[of ?S] makedirs_split_src_tauri)
  have step: "makedirs ?O True w = makedirs_leaf ?O True ?wb"
    using ne rec by (simp add: makedirs.simps[of ?O] makedirs_split_output_dir src_tauri_nonempty)
  have "resolve ?wa ?S = Inr (q @ [''src-tauri''])"
    using rs by (rule resolve_update_other) (simp_all add: ns)
  then have rsb: "resolve ?wb ?S = Inr (q @ [''src-tauri''])" by simp
  have nb: "node_at (nodes ?wb) (q @ [''src-tauri'']) = Some Dir"
    by (simp add: node_at_def)
  have ro: "resolve ?wb ?O = Inr (q @ [''src-tauri'', ''icons''])"
    using rsb nb by (simp add: resolve_output_dir)
  have ni: "node_at (nodes ?wb) (q @ [''src-tauri'', ''icons'']) = None"
    using i by (simp add: node_at_def)
  have "mkdir_result ?O ?wb =
      (Inr (), ?wb\<lparr>nodes := (nodes ?wb)(q @ [''src-tauri'', ''icons''] \<mapsto> Dir),
                  writable := (writable ?wb)(q @ [''src-tauri'', ''icons''] := True)\<rparr>)"
    using ro ni nb
    by (simp add: mkdir_result_def rstrip_output_dir output_dir_nonempty butlast_append log_def)
  then show ?thesis
    by (simp add: step makedirs_leaf_def mkdir_def log_def)
qed

lemma write_icon_trace:
  "\<exists>r rest. trace (snd (write_icon file w)) = trace w @ Open (svg_path file) r # rest"
proof -
  obtain r2 w2 where wr: "write_icon file w = (r2, w2)" by (cases "write_icon file w")
  from write_block_cases[OF wr[unfolded write_icon_def]]
  have "\<exists>r rest. trace w2 = trace w @ Open (svg_path file) r # rest"
    by (auto simp: log_def)
  with wr show ?thesis by simp
qed

lemma main_trace_after_makedirs:
  assumes "makedirs (output_dir file) True w = (Inr (), w1)"
  shows "trace (snd (main file w)) = trace (snd (write_icon file w1))"
proof -
  obtain r2 w2 where wr: "write_icon file w1 = (r2, w2)" by (cases "write_icon file w1")
  from main_after_write[OF assms wr] wr show ?thesis by simp
qed

lemma example_isdir: "path_isdir (output_dir example_file) example_written"
  unfolding example_output_dir
  by (simp add: path_isdir_def resolve_def components_def node_at_def example_written_def)

lemma example_parent:
  "resolve example_world (parent_dir example_file) = Inr [''repo''] \<and>
   node_at (nodes example_world) [''repo''] = Some Dir \<and> writable example_world [''repo''] \<and>
   nodes example_world ([''repo''] @ [''src-tauri'']) = None \<and>
   nodes example_world ([''repo''] @ [''src-tauri'', ''icons'']) = None"
  by (simp add: parent_dir_def dir_prefix_def dirname_def rstrip_sep_def example_file_def
      resolve_def components_def node_at_def example_world_def)

lemma example_makedirs_output:
  "makedirs (output_dir example_file) True example_world =
     (Inr (), example_world\<lparr>
        nodes := [[''repo''] \<mapsto> Dir, [''repo'', ''scripts''] \<mapsto> Dir,
               [''repo'', ''src-tauri''] \<mapsto> Dir, [''repo'', ''src-tauri'', ''icons''] \<mapsto> Dir],
        trace := [Mkdir ''scripts/../src-tauri'' (Inr ()), Mkdir ''scripts/../src-tauri/icons'' (Inr ())]\<rparr>)"
  by (simp only: example_output_dir example_makedirs)

lemma main_fresh:
  assumes "fresh_ready file w q"
  shows "\<exists>w1. main file w = (Inr (), w1)"
proof -
  let ?s = "q @ [''src-tauri'']" and ?i = "q @ [''src-tauri'', ''icons'']"
  let ?p = "q @ [''src-tauri'', ''icons'', ''icon.svg'']"
  let ?W = "w\<lparr>nodes := (nodes w)(?s \<mapsto> Dir, ?i \<mapsto> Dir),
               writable := (writable w)(?s := True, ?i := True),
               trace := trace w @ [Mkdir (src_tauri_dir file) (Inr ()), Mkdir (output_dir file) (Inr ())]\<rparr>"
  from assms have q: "resolve w (parent_dir file) = Inr q" "node_at (nodes w) q = Some Dir"
    "writable w q" and n: "nodes w ?s = None" "nodes w ?i = None" "nodes w ?p = None"
    and sp: "length (generate_icon_svg ()) \<le> free_space w"
    and ct: "console_takes (printed_lines file) w"
    by (simp_all add: fresh_ready_def)
  have mk: "makedirs (output_dir file) True w = (Inr (), ?W)"
    using q n(1,2) by (rule makedirs_fresh)
  let ?wa = "w\<lparr>nodes := (nodes w)(?s \<mapsto> Dir)\<rparr>"
  have "resolve ?wa (parent_dir file) = Inr q"
    using q(1) by (rule resolve_update_other) (simp_all add: node_at_def n)
  then have "resolve ?W (parent_dir file) = Inr q"
    by (rule resolve_update_other) (simp_all add: node_at_def n)
  moreover have "node_at (nodes ?W) q = Some Dir"
    using q(2) by (auto simp: node_at_def)
  ultimately have "resolve ?W (src_tauri_dir file) = Inr ?s"
    by (simp add: resolve_src_tauri)
  moreover have "node_at (nodes ?W) ?s = Some Dir" by (simp add: node_at_def)
  ultimately have ro: "resolve ?W (output_dir file) = Inr ?i"
    by (simp add: resolve_output_dir)
  have di: "node_at (nodes ?W) ?i = Some Dir" by (simp add: node_at_def)
  have "resolve ?W (output_dir file @ CHR ''/'' # ''icon.svg'') =
          (case resolve ?W (output_dir file) of Inl e \<Rightarrow> Inl e
           | Inr d \<Rightarrow> walk (nodes ?W) d [''icon.svg''])"
    by (rule resolve_child) (simp_all add: output_dir_nonempty)
  then have rp: "resolve ?W (svg_path file) = Inr ?p"
    using ro di by (simp add: svg_path_eq)
  have "write_icon file ?W =
           (Inr (length (generate_icon_svg ())),
            ?W\<lparr>nodes := (nodes ?W)(?p \<mapsto> File (generate_icon_svg ())),
              writable := (writable ?W)(?p := True),
              free_space := free_space ?W + old_length ?W ?p - length (generate_icon_svg ()),
              trace := trace ?W @ [Open (svg_path file) (Inr (fresh_fd (open_files ?W))),
                Write (fresh_fd (open_files ?W)) (generate_icon_svg ())
                  (Inr (length (generate_icon_svg ()))),
                Close (fresh_fd (open_files ?W))]\<rparr>)"
  proof (rule write_icon_succeeds[OF rp])
    show "?p \<noteq> []" by simp
    show "(nodes ?W ?p = None \<and> node_at (nodes ?W) (butlast ?p) = Some Dir \<and>
        writable ?W (butlast ?p)) \<or> (\<exists>c. nodes ?W ?p = Some (File c) \<and> writable ?W ?p)"
      using n(3) by (simp add: node_at_def butlast_append)
    show "length (generate_icon_svg ()) \<le> free_space ?W + old_length ?W ?p"
      using sp by simp
  qed
  then obtain n2 w2 where wr: "write_icon file ?W = (Inr n2, w2)" and
    se: "stdout_error w2 = stdout_error w"
    by simp
  have "console_takes (printed_lines file) w2"
    using ct se by (simp add: console_takes_def)
  from print_lines_takes[OF this] show ?thesis
    by (simp add: main_stages mk wr)
qed

lemma example_fresh_ready: "fresh_ready example_file example_world [''repo'']"
  unfolding fresh_ready_def
  using example_parent
  by (simp add: svg_length console_takes_def list_all_iff) (simp add: example_world_def)

section \<open>Claims about the document\<close>

text \<open>
  C1. \<open>generate_icon_svg\<close> takes no input and cannot fail: it is a total function of
  the unit argument into strings, and any two calls return the same string, which is
  the value of the call \<open>generate_icon_svg ()\<close>.
\<close>

theorem generate_icon_svg_deterministic:
  "generate_icon_svg u = generate_icon_svg v \<and> generate_icon_svg u = generate_icon_svg ()"
  by simp

text \<open>
  C2. The first line of the document is the XML declaration, the document contains the
  substrings \<open>id="bgGrad"\<close> and \<open>id="iconGrad"\<close>, and it has exactly 5 \<open>circle\<close>
  elements, 2 \<open>path\<close> elements and 6 \<open>line\<close> elements.
\<close>

theorem generate_icon_svg_shape:
  \<open>first_line (generate_icon_svg ()) = ''<?xml version="1.0" encoding="UTF-8"?>'' \<and>
   sublist ''id="bgGrad"'' (generate_icon_svg ()) \<and>
   sublist ''id="iconGrad"'' (generate_icon_svg ()) \<and>
   count_elements ''circle'' (generate_icon_svg ()) = 5 \<and>
   count_elements ''path'' (generate_icon_svg ()) = 2 \<and>
   count_elements ''line'' (generate_icon_svg ()) = 6\<close>
  by (simp add: svg_first_line svg_contains_bgGrad svg_contains_iconGrad
      count_elements_def svg_start_tags)

text \<open>
  C10. Every gradient reference \<open>url(#...)\<close> of the document names a gradient that a
  \<open>linearGradient\<close> element of the \<open>defs\<close> section defines; the defined gradients are
  \<open>bgGrad\<close> and \<open>iconGrad\<close>.
\<close>

theorem gradient_refs_defined:
  \<open>set (gradient_refs (generate_icon_svg ())) \<subseteq> set (gradient_ids (generate_icon_svg ())) \<and>
   gradient_ids (generate_icon_svg ()) = [''bgGrad'', ''iconGrad''] \<and>
   length (gradient_refs (generate_icon_svg ())) = 13\<close>
  by (simp add: svg_gradient_refs svg_gradient_ids)

section \<open>Claims about the program\<close>

text \<open>
  C3. A successful run writes the document to exactly one place. The path it opens is
  the script's directory followed by \<open>../src-tauri/icons/icon.svg\<close>; after the run
  that path resolves to the entry \<open>icon.svg\<close> of the directory that
  \<open>../src-tauri/icons\<close> resolves to, that entry is a file holding the document, and
  every other file of the tree is as it was before the run.
\<close>

theorem main_output_location:
  assumes "main file w = (Inr (), w')"
  shows "svg_path file = dir_prefix (dirname file) @ ''../src-tauri/icons/icon.svg'' \<and>
         (\<exists>d. resolve w' (dir_prefix (dirname file) @ ''../src-tauri/icons'') = Inr d \<and>
              node_at (nodes w') d = Some Dir \<and>
              resolve w' (svg_path file) = Inr (d @ [''icon.svg'']) \<and>
              nodes w' (d @ [''icon.svg'']) = Some (File (generate_icon_svg ())) \<and>
              (\<forall>q c. q \<noteq> d @ [''icon.svg''] \<longrightarrow>
                  (nodes w' q = Some (File c)) = (nodes w q = Some (File c))))"
proof -
  from assms obtain w1 w2 n where
    mk: "makedirs (output_dir file) True w = (Inr (), w1)" and
    wr: "write_icon file w1 = (Inr n, w2)" and
    w': "w' = w2\<lparr>stdout := stdout w2 @ guidance file\<rparr>"
    by (rule main_success)
  from wr obtain p where
    p: "resolve w1 (svg_path file) = Inr p" "node_at (nodes w1) p \<noteq> Some Dir" and
    n2: "nodes w2 = (nodes w1)(p \<mapsto> File (generate_icon_svg ()))" and
    c2: "cwd w2 = cwd w1"
    by (rule write_icon_success)
  from p(1) obtain d where
    d: "resolve w1 (output_dir file) = Inr d" "node_at (nodes w1) d = Some Dir"
      "p = d @ [''icon.svg'']"
    by (rule resolve_icon)
  have r2: "resolve w2 s = Inr q" if "resolve w1 s = Inr q" for s q
    using that p(2) n2 c2 by (rule resolve_update_other)
  have r': "resolve w' s = resolve w2 s" for s
    by (rule resolve_same) (simp_all add: w')
  have e0: "svg_path file = dir_prefix (dirname file) @ ''../src-tauri/icons/icon.svg''"
    by (simp add: svg_path_eq output_dir_eq)
  have e1: "resolve w' (dir_prefix (dirname file) @ ''../src-tauri/icons'') = Inr d"
    using r2[OF d(1)] by (simp only: r' output_dir_eq)
  have e2: "resolve w' (svg_path file) = Inr (d @ [''icon.svg''])"
    using r2[OF p(1)] d(3) by (simp only: r')
  have e3: "node_at (nodes w') d = Some Dir"
    using d(2,3) by (auto simp: w' n2 node_at_def)
  have e4: "nodes w' (d @ [''icon.svg'']) = Some (File (generate_icon_svg ()))"
    by (simp add: w' n2 d(3))
  have e5: "(nodes w' q = Some (File c)) = (nodes w q = Some (File c))"
    if "q \<noteq> d @ [''icon.svg'']" for q c
    using that dirs_added_files[OF makedirs_dirs_added[OF mk]] by (simp add: w' n2 d(3))
  from e0 e1 e2 e3 e4 e5 show ?thesis by blast
qed

theorem main_output_location_witness:
  "main example_file example_world = (Inr (), example_written) \<and>
   svg_path example_file = dir_prefix (dirname example_file) @ ''../src-tauri/icons/icon.svg'' \<and>
   (\<exists>d. resolve example_written (dir_prefix (dirname example_file) @ ''../src-tauri/icons'') = Inr d \<and>
        node_at (nodes example_written) d = Some Dir \<and>
        resolve example_written (svg_path example_file) = Inr (d @ [''icon.svg'']) \<and>
        nodes example_written (d @ [''icon.svg'']) = Some (File (generate_icon_svg ())) \<and>
        (\<forall>q c. q \<noteq> d @ [''icon.svg''] \<longrightarrow>
            (nodes example_written q = Some (File c)) = (nodes example_world q = Some (File c))))"
  by (rule conjI[OF example_run main_output_location[OF example_run]])



text \<open>
  C5. Directory creation is idempotent and recursive. When the output directory already
  exists, \<open>makedirs\<close> raises nothing (its one \<open>mkdir\<close> answers \<open>FileExistsError\<close>, which
  is dropped) and the run goes on to open the output file. Whenever \<open>makedirs\<close>
  succeeds, the output directory and its parent \<open>src-tauri\<close> are directories afterwards
  and nothing but directories was added. When neither exists under a writable parent,
  both are created, and with room for the document and a console that takes the printed
  lines the run succeeds.
\<close>

theorem makedirs_idempotent_recursive:
  "(path_isdir (output_dir file) wa \<longrightarrow>
      makedirs (output_dir file) True wa =
        (Inr (), log (Mkdir (output_dir file) (Inl FileExistsError)) wa) \<and>
      (\<exists>r rest. trace (snd (main file wa)) =
          trace wa @ Mkdir (output_dir file) (Inl FileExistsError) # Open (svg_path file) r # rest)) \<and>
   (makedirs (output_dir file) True w = (Inr (), w1) \<longrightarrow>
      path_isdir (output_dir file) w1 \<and> path_isdir (src_tauri_dir file) w1 \<and> dirs_added w w1) \<and>
   (resolve wc (parent_dir file) = Inr q \<and> node_at (nodes wc) q = Some Dir \<and> writable wc q \<and>
    nodes wc (q @ [''src-tauri'']) = None \<and> nodes wc (q @ [''src-tauri'', ''icons'']) = None \<longrightarrow>
      (\<exists>w2. makedirs (output_dir file) True wc = (Inr (), w2) \<and>
          nodes w2 (q @ [''src-tauri'']) = Some Dir \<and>
          nodes w2 (q @ [''src-tauri'', ''icons'']) = Some Dir)) \<and>
   (fresh_ready file wd qd \<longrightarrow> (\<exists>w3. main file wd = (Inr (), w3)))"
proof (intro conjI impI)
  assume a: "path_isdir (output_dir file) wa"
  let ?ev = "Mkdir (output_dir file) (Inl FileExistsError)"
  show m: "makedirs (output_dir file) True wa = (Inr (), log ?ev wa)"
    using a by (rule makedirs_existing)
  have "\<exists>r rest. trace (snd (write_icon file (log ?ev wa))) =
      trace (log ?ev wa) @ Open (svg_path file) r # rest"
    by (rule write_icon_trace)
  then obtain r rest where
    "trace (snd (write_icon file (log ?ev wa))) = trace (log ?ev wa) @ Open (svg_path file) r # rest"
    by blast
  then have "trace (snd (main file wa)) = trace wa @ ?ev # Open (svg_path file) r # rest"
    by (simp add: main_trace_after_makedirs[OF m] log_def)
  then show "\<exists>r rest. trace (snd (main file wa)) = trace wa @ ?ev # Open (svg_path file) r # rest"
    by blast
next
  assume b: "makedirs (output_dir file) True w = (Inr (), w1)"
  then show "path_isdir (output_dir file) w1" by (rule makedirs_output_dir_isdir)
  then show "path_isdir (src_tauri_dir file) w1" by (rule isdir_output_dir_parent)
  from b show "dirs_added w w1" by (rule makedirs_dirs_added)
next
  assume c: "resolve wc (parent_dir file) = Inr q \<and> node_at (nodes wc) q = Some Dir \<and>
    writable wc q \<and> nodes wc (q @ [''src-tauri'']) = None \<and>
    nodes wc (q @ [''src-tauri'', ''icons'']) = None"
  then have "makedirs (output_dir file) True wc =
     (Inr (), wc\<lparr>nodes := (nodes wc)(q @ [''src-tauri''] \<mapsto> Dir, q @ [''src-tauri'', ''icons''] \<mapsto> Dir),
               writable := (writable wc)(q @ [''src-tauri''] := True, q @ [''src-tauri'', ''icons''] := True),
               trace := trace wc @ [Mkdir (src_tauri_dir file) (Inr ()), Mkdir (output_dir file) (Inr ())]\<rparr>)"
    by (intro makedirs_fresh) simp_all
  then show "\<exists>w2. makedirs (output_dir file) True wc = (Inr (), w2) \<and>
          nodes w2 (q @ [''src-tauri'']) = Some Dir \<and>
          nodes w2 (q @ [''src-tauri'', ''icons'']) = Some Dir"
    by simp
next
  assume "fresh_ready file wd qd"
  then show "\<exists>w3. main file wd = (Inr (), w3)" by (rule main_fresh)
qed

theorem makedirs_idempotent_recursive_witness:
  "path_isdir (output_dir example_file) example_written \<and>
   makedirs (output_dir example_file) True example_written =
     (Inr (), log (Mkdir (output_dir example_file) (Inl FileExistsError)) example_written) \<and>
   makedirs (output_dir example_file) True example_world =
     (Inr (), example_world\<lparr>
        nodes := [[''repo''] \<mapsto> Dir, [''repo'', ''scripts''] \<mapsto> Dir,
               [''repo'', ''src-tauri''] \<mapsto> Dir, [''repo'', ''src-tauri'', ''icons''] \<mapsto> Dir],
        trace := [Mkdir ''scripts/../src-tauri'' (Inr ()), Mkdir ''scripts/../src-tauri/icons'' (Inr ())]\<rparr>) \<and>
   path_isdir (output_dir example_file) (example_world\<lparr>
        nodes := [[''repo''] \<mapsto> Dir, [''repo'', ''scripts''] \<mapsto> Dir,
               [''repo'', ''src-tauri''] \<mapsto> Dir, [''repo'', ''src-tauri'', ''icons''] \<mapsto> Dir],
        trace := [Mkdir ''scripts/../src-tauri'' (Inr ()), Mkdir ''scripts/../src-tauri/icons'' (Inr ())]\<rparr>) \<and>
   resolve example_world (parent_dir example_file) = Inr [''repo''] \<and>
   nodes example_world ([''repo''] @ [''src-tauri'']) = None \<and>
   (\<exists>w2. makedirs (output_dir example_file) True example_world = (Inr (), w2) \<and>
        nodes w2 ([''repo''] @ [''src-tauri'']) = Some Dir \<and>
        nodes w2 ([''repo''] @ [''src-tauri'', ''icons'']) = Some Dir) \<and>
   fresh_ready example_file example_world [''repo''] \<and>
   (\<exists>w3. main example_file example_world = (Inr (), w3))"
  using makedirs_idempotent_recursive[of example_file example_written example_world
      "example_world\<lparr>
        nodes := [[''repo''] \<mapsto> Dir, [''repo'', ''scripts''] \<mapsto> Dir,
               [''repo'', ''src-tauri''] \<mapsto> Dir, [''repo'', ''src-tauri'', ''icons''] \<mapsto> Dir],
        trace := [Mkdir ''scripts/../src-tauri'' (Inr ()), Mkdir ''scripts/../src-tauri/icons'' (Inr ())]\<rparr>"
      example_world "[''repo'']" example_world "[''repo'']"]
    example_isdir example_parent example_makedirs_output example_fresh_ready
  by blast

text \<open>
  C6, as amended. Nothing catches, wraps or retries an error: the result of \<open>main\<close>
  is the error of the first of \<open>makedirs\<close>, \<open>open\<close>, \<open>write\<close> and the \<open>print\<close>
  calls that fails, unchanged, in the state that operation left (the handle closed
  after a failed write). The exit status is zero exactly when no file-system
  operation fails, the console takes every printed line, and the final flush of the
  standard output succeeds; in particular every file-system error gives a non-zero
  status.
\<close>

theorem errors_propagate:
  "main file w =
     (case makedirs (output_dir file) True w of
        (Inl e, w1) \<Rightarrow> (Inl e, w1)
      | (Inr u, w1) \<Rightarrow>
          (case open_w (svg_path file) w1 of
             (Inl e, w2) \<Rightarrow> (Inl e, w2)
           | (Inr f, w2) \<Rightarrow>
               (case file_write f (generate_icon_svg ()) w2 of
                  (Inl e, w3) \<Rightarrow> (Inl e, file_close f w3)
                | (Inr n, w3) \<Rightarrow> print_lines (printed_lines file) (file_close f w3)))) \<and>
   (fst (run_script file w) = 0) =
     (fs_ok file w \<and> console_takes (printed_lines file) w \<and> \<not> flush_fails w)"
proof
  show "main file w =
     (case makedirs (output_dir file) True w of
        (Inl e, w1) \<Rightarrow> (Inl e, w1)
      | (Inr u, w1) \<Rightarrow>
          (case open_w (svg_path file) w1 of
             (Inl e, w2) \<Rightarrow> (Inl e, w2)
           | (Inr f, w2) \<Rightarrow>
               (case file_write f (generate_icon_svg ()) w2 of
                  (Inl e, w3) \<Rightarrow> (Inl e, file_close f w3)
                | (Inr n, w3) \<Rightarrow> print_lines (printed_lines file) (file_close f w3))))"
    by (simp add: main_stages write_icon_def with_open_w_def split: prod.splits sum.splits)
next
  obtain r1 w1 where mk: "makedirs (output_dir file) True w = (r1, w1)"
    by (cases "makedirs (output_dir file) True w")
  have f1: "stdout w1 = stdout w" "stdout_error w1 = stdout_error w" "flush_fails w1 = flush_fails w"
    using makedirs_dirs_added[OF mk] by (simp_all add: dirs_added_def)
  show "(fst (run_script file w) = 0) =
     (fs_ok file w \<and> console_takes (printed_lines file) w \<and> \<not> flush_fails w)"
  proof (cases r1)
    case (Inl e)
    with mk show ?thesis by (simp add: run_script_def main_stages fs_ok_def)
  next
    case (Inr u)
    obtain r2 w2 where wr: "write_icon file w1 = (r2, w2)" by (cases "write_icon file w1")
    note f2 = write_icon_frame[OF wr]
    show ?thesis
    proof (cases r2)
      case (Inl e)
      with mk Inr wr show ?thesis by (simp add: run_script_def main_stages fs_ok_def)
    next
      case (Inr n)
      have ok: "fs_ok file w" using mk \<open>r1 = Inr u\<close> wr Inr by (simp add: fs_ok_def)
      have ct: "console_takes (printed_lines file) w2 = console_takes (printed_lines file) w"
        using f1 f2 by (simp add: console_takes_def)
      have m: "main file w = print_lines (printed_lines file) w2"
        using mk \<open>r1 = Inr u\<close> wr Inr by (simp add: main_stages)
      show ?thesis
      proof (cases "console_takes (printed_lines file) w2")
        case True
        from print_lines_takes[OF True]
        have "main file w = (Inr (), w2\<lparr>stdout := stdout w2 @ guidance file\<rparr>)"
          by (simp add: m guidance_def)
        then show ?thesis
          using ok True ct f1 f2 guidance_nonempty[of "file"] by (simp add: run_script_def)
      next
        case False
        from print_lines_refused[OF False] obtain e w3 where
          "main file w = (Inl e, w3)" by (auto simp: m)
        then show ?thesis using False ct by (simp add: run_script_def)
      qed
    qed
  qed
qed

theorem errors_propagate_witness:
  "fs_ok example_file example_world \<and> console_takes (printed_lines example_file) example_world \<and>
   \<not> flush_fails example_world \<and> fst (run_script example_file example_world) = 0"
proof -
  have c: "console_takes (printed_lines example_file) example_world"
    by (simp add: console_takes_def example_world_def list_all_iff)
  have f: "\<not> flush_fails example_world" by (simp add: example_world_def)
  from errors_propagate[of example_file example_world] example_fs_ok c f
  show ?thesis by simp
qed

text \<open>
  The claim as first stated, that a run without a file-system error ends with status
  zero, fails on a console whose encoding is ASCII: the directories are created and the
  file is written, then the first \<open>print\<close>, whose text starts with the check mark
  U+2713, raises \<open>UnicodeEncodeError\<close>, and the status is 1.
\<close>

theorem exit_status_counterexample:
  "fs_ok example_file example_ascii \<and>
   nodes (snd (run_script example_file example_ascii)) [''repo'', ''src-tauri'', ''icons'', ''icon.svg''] =
     Some (File (generate_icon_svg ())) \<and>
   fst (main example_file example_ascii) = Inl UnicodeEncodeError \<and>
   fst (run_script example_file example_ascii) = 1"
proof -
  have "fs_ok example_file example_ascii"
    by (simp add: fs_ok_def example_ascii_makedirs example_ascii_write_icon)
  moreover have "run_script example_file example_ascii = (1, snd (main example_file example_ascii))"
    using example_ascii_main
    by (cases "main example_file example_ascii") (simp add: run_script_def)
  ultimately show ?thesis using example_ascii_main by simp
qed

text \<open>
  C7. On a read-only file system the run ends with exit status 1 and the tree is
  unchanged. More generally, when directory creation or the open fails, the exit status
  is 1 and every file of the tree, the target included, is exactly as before: no file
  is created, truncated or partly written.
\<close>

theorem failed_run_leaves_files:
  "(read_only w \<longrightarrow>
      fst (run_script file w) = 1 \<and> nodes (snd (run_script file w)) = nodes w) \<and>
   ((\<exists>e w1. makedirs (output_dir file) True w = (Inl e, w1)) \<or>
    (\<exists>e w1 w2. makedirs (output_dir file) True w = (Inr (), w1) \<and>
        open_w (svg_path file) w1 = (Inl e, w2)) \<longrightarrow>
      fst (run_script file w) = 1 \<and>
      (\<forall>q c. (nodes (snd (run_script file w)) q = Some (File c)) = (nodes w q = Some (File c))))"
proof (intro conjI impI)
  obtain r1 w1 where mk: "makedirs (output_dir file) True w = (r1, w1)"
    by (cases "makedirs (output_dir file) True w")
  have sd: "stdout w1 = stdout w"
    using makedirs_dirs_added[OF mk] by (simp add: dirs_added_def)
  {
    assume ro: "read_only w"
    from makedirs_read_only[OF ro mk] have t: "same_tree w w1" .
    from same_tree_read_only[OF t ro] open_read_only obtain e where
      "open_result (svg_path file) w1 = (Inl e, w1)" by blast
    then have "write_icon file w1 = (Inl e, log (Open (svg_path file) (Inl e)) w1)"
      by (rule write_icon_open_fails)
    then have "fst (run_script file w) = 1 \<and> nodes (snd (run_script file w)) = nodes w1"
      using mk sd by (auto simp: run_script_def main_stages log_def split: sum.splits)
    with t show "fst (run_script file w) = 1" "nodes (snd (run_script file w)) = nodes w"
      by (simp_all add: same_tree_def)
  }
  assume "(\<exists>e w1. makedirs (output_dir file) True w = (Inl e, w1)) \<or>
    (\<exists>e w1 w2. makedirs (output_dir file) True w = (Inr (), w1) \<and>
        open_w (svg_path file) w1 = (Inl e, w2))"
  then consider e where "r1 = Inl e"
    | e w2 where "r1 = Inr ()" "open_w (svg_path file) w1 = (Inl e, w2)"
    using mk by auto
  then have "fst (run_script file w) = 1 \<and> nodes (snd (run_script file w)) = nodes w1"
  proof cases
    case 1
    with mk sd show ?thesis by (simp add: run_script_def main_stages)
  next
    case 2
    then have "w2 = log (Open (svg_path file) (Inl e)) w1"
      by (auto simp: open_w_def open_result_def split: sum.splits option.splits node.splits if_splits prod.splits)
    with 2 mk sd show ?thesis
      by (simp add: run_script_def main_stages write_icon_def with_open_w_def log_def)
  qed
  then show "fst (run_script file w) = 1"
    "\<forall>q c. (nodes (snd (run_script file w)) q = Some (File c)) = (nodes w q = Some (File c))"
    using dirs_added_files[OF makedirs_dirs_added[OF mk]] by simp_all
qed

theorem failed_run_leaves_files_witness:
  "read_only example_read_only \<and>
   (\<exists>e w1. makedirs (output_dir example_file) True example_read_only = (Inl e, w1)) \<and>
   fst (run_script example_file example_read_only) = 1 \<and>
   nodes (snd (run_script example_file example_read_only)) = nodes example_read_only \<and>
   (\<forall>q c. (nodes (snd (run_script example_file example_read_only)) q = Some (File c)) =
          (nodes example_read_only q = Some (File c)))"
proof -
  have a: "read_only example_read_only"
    by (simp add: read_only_def example_read_only_def)
  have b: "\<exists>e w1. makedirs (output_dir example_file) True example_read_only = (Inl e, w1)"
    using example_read_only_makedirs by blast
  from a b failed_run_leaves_files[of example_read_only example_file]
  show ?thesis by blast
qed

text \<open>
  C8. The file handle is scoped to the write. A run leaves the table of open files as
  it found it; the handle is fresh; and the operations of a run are some \<open>mkdir\<close>
  calls followed by nothing, by a failed \<open>open\<close>, or by exactly \<open>open\<close>,
  \<open>write\<close>, \<open>close\<close> on that handle, whatever the result of the write.
\<close>

theorem file_handle_scoped:
  "open_files (snd (main file w)) = open_files w \<and>
   fresh_fd (open_files w) \<notin> fst ` set (open_files w) \<and>
   (\<exists>evs. list_all is_mkdir evs \<and>
      (trace (snd (main file w)) = trace w @ evs \<or>
       (\<exists>e. trace (snd (main file w)) = trace w @ evs @ [Open (svg_path file) (Inl e)]) \<or>
       (\<exists>r. trace (snd (main file w)) = trace w @ evs @
              [Open (svg_path file) (Inr (fresh_fd (open_files w))),
               Write (fresh_fd (open_files w)) (generate_icon_svg ()) r,
               Close (fresh_fd (open_files w))])))"
proof -
  obtain r1 w1 where mk: "makedirs (output_dir file) True w = (r1, w1)"
    by (cases "makedirs (output_dir file) True w")
  from makedirs_dirs_added[OF mk] obtain evs where
    evs: "trace w1 = trace w @ evs" "list_all is_mkdir evs" and o1: "open_files w1 = open_files w"
    by (auto simp: dirs_added_def)
  have fresh: "fresh_fd (open_files w) \<notin> fst ` set (open_files w)"
    using fresh_fd_greater by fastforce
  show ?thesis
  proof (cases r1)
    case (Inl e)
    with mk evs o1 fresh show ?thesis
      by (auto simp: main_stages)
  next
    case (Inr u)
    obtain r2 w2 where wr: "write_icon file w1 = (r2, w2)" by (cases "write_icon file w1")
    from mk Inr have mk': "makedirs (output_dir file) True w = (Inr (), w1)" by simp
    have m: "open_files (snd (main file w)) = open_files w2 \<and> trace (snd (main file w)) = trace w2"
      using main_after_write[OF mk' wr] by simp
    from write_block_cases[OF wr[unfolded write_icon_def]]
    have "open_files w2 = open_files w1 \<and>
          ((\<exists>e. trace w2 = trace w1 @ [Open (svg_path file) (Inl e)]) \<or>
           (\<exists>r. trace w2 = trace w1 @
              [Open (svg_path file) (Inr (fresh_fd (open_files w1))),
               Write (fresh_fd (open_files w1)) (generate_icon_svg ()) r,
               Close (fresh_fd (open_files w1))]))"
      by (auto simp: log_def)
    with m evs o1 fresh show ?thesis by auto
  qed
qed

text \<open>
  C9. After a successful run the file at the output path holds exactly the string that
  \<open>generate_icon_svg ()\<close> returns, and the run issued one write, of that string and
  of its full length.
\<close>

theorem main_writes_document:
  assumes "main file w = (Inr (), w')"
  shows "\<exists>p f. resolve w' (svg_path file) = Inr p \<and>
           nodes w' p = Some (File (generate_icon_svg ())) \<and>
           writes (trace w') = writes (trace w) @
             [Write f (generate_icon_svg ()) (Inr (length (generate_icon_svg ())))]"
proof -
  from assms obtain w1 w2 n where
    mk: "makedirs (output_dir file) True w = (Inr (), w1)" and
    wr: "write_icon file w1 = (Inr n, w2)" and
    w': "w' = w2\<lparr>stdout := stdout w2 @ guidance file\<rparr>"
    by (rule main_success)
  from wr obtain p where
    p: "resolve w1 (svg_path file) = Inr p" "node_at (nodes w1) p \<noteq> Some Dir" and
    n2: "nodes w2 = (nodes w1)(p \<mapsto> File (generate_icon_svg ()))" and
    c2: "cwd w2 = cwd w1"
    by (rule write_icon_success)
  have "resolve w2 (svg_path file) = Inr p"
    using p n2 c2 by (rule resolve_update_other)
  moreover have "resolve w' (svg_path file) = resolve w2 (svg_path file)"
    by (rule resolve_same) (simp_all add: w')
  ultimately have a: "resolve w' (svg_path file) = Inr p"
    by simp
  from makedirs_dirs_added[OF mk] obtain evs where
    evs: "trace w1 = trace w @ evs" "list_all is_mkdir evs"
    by (auto simp: dirs_added_def)
  from write_block_cases[OF wr[unfolded write_icon_def]]
  have "trace w2 = trace w1 @ [Open (svg_path file) (Inr (fresh_fd (open_files w1))),
            Write (fresh_fd (open_files w1)) (generate_icon_svg ()) (Inr n),
            Close (fresh_fd (open_files w1))] \<and> n = length (generate_icon_svg ())"
    by (auto split: if_splits)
  then have "writes (trace w') = writes (trace w) @
      [Write (fresh_fd (open_files w1)) (generate_icon_svg ()) (Inr (length (generate_icon_svg ())))]"
    using evs writes_mkdirs[OF evs(2)] by (simp add: w' writes_def)
  with a show ?thesis by (auto simp: w' n2)
qed

theorem main_writes_document_witness:
  "main example_file example_world = (Inr (), example_written) \<and>
   (\<exists>p f. resolve example_written (svg_path example_file) = Inr p \<and>
        nodes example_written p = Some (File (generate_icon_svg ())) \<and>
        writes (trace example_written) = writes (trace example_world) @
          [Write f (generate_icon_svg ()) (Inr (length (generate_icon_svg ())))])"
  by (rule conjI[OF example_run main_writes_document[OF example_run]])

end
